theory Spec2Isabelle
  imports Complex_Main "HOL-Library.Sublist" "HOL-Library.Multiset" "HOL-Library.Code_Target_Nat"
begin

section \<open>Data model\<close>

text \<open>
  The file kinds of the organiser (enum \<open>FileType\<close>). The enum's string values are the
  lower-case names that appear in the tags (\<open>type/document\<close>, \<open>type/image\<close>, ...).
\<close>

datatype FileType = Document | Image | Code | Data | Archive | Media | Unknown

fun FileType_value :: "FileType \<Rightarrow> string" where
  "FileType_value Document = ''document''"
| "FileType_value Image = ''image''"
| "FileType_value Code = ''code''"
| "FileType_value Data = ''data''"
| "FileType_value Archive = ''archive''"
| "FileType_value Media = ''media''"
| "FileType_value Unknown = ''unknown''"

section \<open>Strings\<close>

text \<open>
  Strings are lists of characters, and stand for ASCII text: \<open>toLowerCase\<close> and
  \<open>toUpperCase\<close> map the letters \<open>A\<close> to \<open>Z\<close> and \<open>a\<close> to \<open>z\<close> and leave every
  other character alone, as the methods of \<open>String.prototype\<close> do on ASCII text. What
  those methods do with letters outside ASCII is not modelled.
\<close>

definition lower_char :: "char \<Rightarrow> char" where
  "lower_char c =
     (case map_of (zip ''ABCDEFGHIJKLMNOPQRSTUVWXYZ'' ''abcdefghijklmnopqrstuvwxyz'') c of
        Some l \<Rightarrow> l
      | None \<Rightarrow> c)"

definition toLowerCase :: "string \<Rightarrow> string" where
  "toLowerCase s = map lower_char s"

definition upper_char :: "char \<Rightarrow> char" where
  "upper_char c =
     (case map_of (zip ''abcdefghijklmnopqrstuvwxyz'' ''ABCDEFGHIJKLMNOPQRSTUVWXYZ'') c of
        Some u \<Rightarrow> u
      | None \<Rightarrow> c)"

definition toUpperCase :: "string \<Rightarrow> string" where
  "toUpperCase s = map upper_char s"

text \<open>\<open>s.includes(sub)\<close>.\<close>

fun str_includes :: "string \<Rightarrow> string \<Rightarrow> bool" where
  "str_includes [] sub = (sub = [])"
| "str_includes (c # cs) sub = (prefix sub (c # cs) \<or> str_includes cs sub)"

text \<open>\<open>s.split(c)\<close> for a one-character separator: always at least one piece.\<close>

fun split_char :: "char \<Rightarrow> string \<Rightarrow> string list" where
  "split_char c [] = [[]]"
| "split_char c (x # xs) =
     (if x = c then [] # split_char c xs
      else (case split_char c xs of
              [] \<Rightarrow> [[x]]
            | p # ps \<Rightarrow> (x # p) # ps))"

text \<open>\<open>parts.join(sep)\<close>.\<close>

fun join_with :: "string \<Rightarrow> string list \<Rightarrow> string" where
  "join_with sep [] = []"
| "join_with sep [p] = p"
| "join_with sep (p # q # ps) = p @ sep @ join_with sep (q # ps)"

section \<open>Classification by extension\<close>

text \<open>
  \<open>FileScanner.buildExtensionMap\<close>: the scanner's table, filled by \<open>map.set\<close> in the
  order of the source, and \<open>FileScanner.getFileType\<close>, which reads it.
\<close>

definition set_all :: "string list \<Rightarrow> FileType \<Rightarrow> (string \<rightharpoonup> FileType) \<Rightarrow> (string \<rightharpoonup> FileType)" where
  "set_all exts t m = fold (\<lambda>ext m'. m'(ext \<mapsto> t)) exts m"

definition buildExtensionMap :: "string \<rightharpoonup> FileType" where
  "buildExtensionMap =
     (set_all [''mp3'', ''mp4'', ''avi'', ''mov'', ''wav'', ''flac''] Media
     (set_all [''zip'', ''tar'', ''gz'', ''rar'', ''7z'', ''bz2''] Archive
     (set_all [''json'', ''csv'', ''xml'', ''yaml'', ''yml'', ''sql''] Data
     (set_all [''js'', ''ts'', ''py'', ''java'', ''cpp'', ''c'', ''go'', ''rs'', ''rb'', ''php'',
               ''swift'', ''kt''] Code
     (set_all [''png'', ''jpg'', ''jpeg'', ''gif'', ''bmp'', ''svg'', ''webp''] Image
     (set_all [''pdf'', ''docx'', ''doc'', ''txt'', ''rtf'', ''odt''] Document
        Map.empty))))))"

definition getFileType :: "string \<Rightarrow> FileType" where
  "getFileType extension =
     (case buildExtensionMap extension of Some t \<Rightarrow> t | None \<Rightarrow> Unknown)"

text \<open>
  \<open>FileProcessor.determineFileType\<close>: the classification applied to the members of an
  expanded archive.
\<close>

definition determineFileType :: "string \<Rightarrow> FileType" where
  "determineFileType extension =
     (let ext = toLowerCase extension in
      if ext \<in> set [''pdf'', ''doc'', ''docx'', ''txt'', ''md'', ''rtf'', ''odt''] then Document
      else if ext \<in> set [''jpg'', ''jpeg'', ''png'', ''gif'', ''bmp'', ''svg'', ''webp''] then Image
      else if ext \<in> set [''js'', ''ts'', ''py'', ''java'', ''cpp'', ''c'', ''go'', ''rs'', ''rb'',
                           ''php''] then Code
      else if ext \<in> set [''json'', ''csv'', ''xml'', ''yaml'', ''yml''] then Data
      else if ext \<in> set [''mp3'', ''wav'', ''mp4'', ''avi'', ''mov'', ''mkv''] then Media
      else if ext \<in> set [''zip'', ''rar'', ''tar'', ''gz'', ''7z''] then Archive
      else Unknown)"

section \<open>Numbers and dates as text\<close>

text \<open>\<open>String(n)\<close> for an integer: decimal digits, with a minus sign below zero.\<close>

definition digit_char :: "nat \<Rightarrow> char" where
  "digit_char d = ''0123456789'' ! (d mod 10)"

fun nat_to_string :: "nat \<Rightarrow> string" where
  "nat_to_string n =
     (if n < 10 then [digit_char n] else nat_to_string (n div 10) @ [digit_char (n mod 10)])"

declare nat_to_string.simps [simp del]

definition int_to_string :: "int \<Rightarrow> string" where
  "int_to_string i = (if i < 0 then ''-'' @ nat_to_string (nat (- i)) else nat_to_string (nat i))"

text \<open>\<open>s.padStart(n, c)\<close> for a one-character filler.\<close>

definition padStart :: "nat \<Rightarrow> char \<Rightarrow> string \<Rightarrow> string" where
  "padStart n c s = replicate (n - length s) c @ s"

text \<open>
  A JavaScript \<open>Date\<close>, seen through the observers the organiser calls on it: the
  milliseconds since the epoch, the local year, the local month (0 to 11), and the two
  renderings.
\<close>

record JsDate =
  getTime :: int
  getFullYear :: int
  getMonth :: nat
  toISOString :: string
  toLocaleDateString :: string

section \<open>File records and tag candidates\<close>

record FileInfo =
  path :: string
  name :: string
  extension :: string
  size_bytes :: nat
  createdAt :: JsDate
  modifiedAt :: JsDate
  ftype :: FileType

record TagSuggestion =
  tag :: string
  confidence :: rat
  source :: string

section \<open>ClaudeService.suggestTags\<close>

text \<open>
  The filename words: \<open>file.name.toLowerCase().replace(/[._-]/g, ' ').split(' ')\<close>, of
  which those longer than three characters are kept.
\<close>

definition replace_separators :: "string \<Rightarrow> string" where
  "replace_separators s = map (\<lambda>c. if c \<in> set ''._-'' then CHR '' '' else c) s"

definition nameWords :: "string \<Rightarrow> string list" where
  "nameWords file_name =
     filter (\<lambda>word. length word > 3)
       (split_char CHR '' '' (replace_separators (toLowerCase file_name)))"

definition date_tag :: "JsDate \<Rightarrow> string" where
  "date_tag d =
     ''date/'' @ int_to_string (getFullYear d) @ ''/''
       @ padStart 2 CHR ''0'' (nat_to_string (getMonth d + 1))"

definition topic_suggestion :: "string \<Rightarrow> TagSuggestion" where
  "topic_suggestion word = \<lparr>tag = ''topic/'' @ word, confidence = 7 / 10, source = ''filename''\<rparr>"

definition suggestTags :: "FileInfo \<Rightarrow> string option \<Rightarrow> TagSuggestion list" where
  "suggestTags file content =
     [\<lparr>tag = ''type/'' @ FileType_value (ftype file), confidence = 1, source = ''type''\<rparr>,
      \<lparr>tag = ''format/'' @ extension file, confidence = 1, source = ''type''\<rparr>,
      \<lparr>tag = date_tag (modifiedAt file), confidence = 1, source = ''context''\<rparr>]
     @ map topic_suggestion (nameWords (name file))"

section \<open>MarkdownGenerator.generateDocumentContent\<close>

abbreviation NL :: string where
  "NL \<equiv> [CHR 0x0A]"

definition unable_notice :: string where
  "unable_notice = ''## Content'' @ NL @ NL @ ''*Unable to extract content from this document.*''"

definition truncation_notice :: string where
  "truncation_notice = NL @ NL @ ''*... (content truncated)*''"

text \<open>
  \<open>!content\<close> holds for \<open>null\<close> and for the empty string; the sections are joined by a
  newline.
\<close>

definition generateDocumentContent :: "string option \<Rightarrow> string" where
  "generateDocumentContent content =
     (case content of
        None \<Rightarrow> unable_notice
      | Some c \<Rightarrow>
          if c = [] then unable_notice
          else if length c > 5000
            then join_with NL [''## Content'' @ NL, take 5000 c, truncation_notice]
            else join_with NL [''## Content'' @ NL, c])"

section \<open>The POSIX \<open>path\<close> module\<close>

text \<open>
  The functions of Node's \<open>path\<close> module that the organiser calls, after the module's
  POSIX implementation. \<open>normalizeString\<close> walks the segments between slashes and keeps
  the resolved ones: an empty segment or \<open>.\<close> is dropped, \<open>..\<close> removes the segment
  before it, or is kept when nothing is left to remove and the path is relative.
\<close>

definition isAbsolute :: "string \<Rightarrow> bool" where
  "isAbsolute p = (case p of [] \<Rightarrow> False | c # _ \<Rightarrow> c = CHR ''/'')"

definition normalize_step :: "bool \<Rightarrow> string \<Rightarrow> string list \<Rightarrow> string list" where
  "normalize_step allowAboveRoot seg res =
     (if seg = [] \<or> seg = ''.'' then res
      else if seg = ''..'' then
        (if res \<noteq> [] \<and> last res \<noteq> ''..'' then butlast res
         else if allowAboveRoot then res @ [''..''] else res)
      else res @ [seg])"

definition normalizeString :: "bool \<Rightarrow> string \<Rightarrow> string list" where
  "normalizeString allowAboveRoot p =
     fold (normalize_step allowAboveRoot) (split_char CHR ''/'' p) []"

definition resolved_segments :: "string \<Rightarrow> string list" where
  "resolved_segments p = normalizeString (\<not> isAbsolute p) p"

definition normalize :: "string \<Rightarrow> string" where
  "normalize p =
     (if p = [] then ''.''
      else
        (let absolute = isAbsolute p;
             trailingSeparator = (last p = CHR ''/'');
             segs = resolved_segments p
         in if segs = [] then (if absolute then ''/'' else if trailingSeparator then ''./'' else ''.'')
            else (if absolute then ''/'' else []) @ join_with ''/'' segs
                 @ (if trailingSeparator then ''/'' else [])))"

definition path_join :: "string list \<Rightarrow> string" where
  "path_join args =
     (case filter (\<lambda>arg. arg \<noteq> []) args of
        [] \<Rightarrow> ''.''
      | parts \<Rightarrow> normalize (join_with ''/'' parts))"

definition path_basename :: "string \<Rightarrow> string" where
  "path_basename p =
     rev (takeWhile (\<lambda>c. c \<noteq> CHR ''/'') (dropWhile (\<lambda>c. c = CHR ''/'') (rev p)))"

definition path_dirname :: "string \<Rightarrow> string" where
  "path_dirname p =
     (case p of
        [] \<Rightarrow> ''.''
      | c # cs \<Rightarrow>
          (case dropWhile (\<lambda>x. x \<noteq> CHR ''/'') (dropWhile (\<lambda>x. x = CHR ''/'') (rev cs)) of
             [] \<Rightarrow> (if c = CHR ''/'' then ''/'' else ''.'')
           | _ # front \<Rightarrow>
               (if c = CHR ''/'' \<and> front = [] then ''//'' else c # rev front)))"

text \<open>The extension of a base name: from its last dot, unless that dot leads the name.\<close>

definition base_ext :: "string \<Rightarrow> string" where
  "base_ext b =
     (let after = takeWhile (\<lambda>c. c \<noteq> CHR ''.'') (rev b) in
      if CHR ''.'' \<notin> set b then []
      else if length after + 1 = length b then []
      else if b = ''..'' then []
      else CHR ''.'' # rev after)"

definition path_extname :: "string \<Rightarrow> string" where
  "path_extname p = base_ext (path_basename p)"

text \<open>\<open>path.parse(p).name\<close>: the base name without its extension.\<close>

definition path_parse_name :: "string \<Rightarrow> string" where
  "path_parse_name p =
     (let b = path_basename p in take (length b - length (base_ext b)) b)"

text \<open>
  \<open>path.resolve(p)\<close> against the working directory \<open>cwd\<close>, as segments, and
  \<open>path.relative(from, to)\<close>.
\<close>

definition path_resolve_segments :: "string \<Rightarrow> string \<Rightarrow> string list" where
  "path_resolve_segments cwd p =
     (if isAbsolute p then normalizeString False p else normalizeString False (cwd @ ''/'' @ p))"

fun drop_common :: "string list \<Rightarrow> string list \<Rightarrow> string list \<times> string list" where
  "drop_common (x # xs) (y # ys) = (if x = y then drop_common xs ys else (x # xs, y # ys))"
| "drop_common xs ys = (xs, ys)"

definition path_relative :: "string \<Rightarrow> string \<Rightarrow> string \<Rightarrow> string" where
  "path_relative cwd from to =
     (case drop_common (path_resolve_segments cwd from) (path_resolve_segments cwd to) of
        (up, down) \<Rightarrow> join_with ''/'' (replicate (length up) ''..'' @ down))"

section \<open>Sanitising the paths of archive entries\<close>

text \<open>
  \<open>entry.path.replace(/^\/+/, '').replace(/\.\./g, '')\<close>: the leading slashes go, then
  every occurrence of two dots, found from left to right without overlap.
\<close>

fun remove_dotdot :: "string \<Rightarrow> string" where
  "remove_dotdot (a # b # cs) =
     (if a = CHR ''.'' \<and> b = CHR ''.'' then remove_dotdot cs else a # remove_dotdot (b # cs))"
| "remove_dotdot cs = cs"

definition sanitize_entry_path :: "string \<Rightarrow> string" where
  "sanitize_entry_path entry_path = remove_dotdot (dropWhile (\<lambda>c. c = CHR ''/'') entry_path)"

definition safePath :: "string \<Rightarrow> string \<Rightarrow> string" where
  "safePath outputDir entry_path = path_join [outputDir, sanitize_entry_path entry_path]"

text \<open>
  A path lies within a directory when both are absolute or both relative and the resolved
  segments of the directory begin the resolved segments of the path.
\<close>

definition path_within :: "string \<Rightarrow> string \<Rightarrow> bool" where
  "path_within dir p \<longleftrightarrow>
     isAbsolute p = isAbsolute dir \<and> prefix (resolved_segments dir) (resolved_segments p)"

section \<open>Effects: outcomes, the file system, the platform\<close>

text \<open>
  An asynchronous call returns a value, throws an \<open>Error\<close> (of which the organiser only
  reads the message), or never settles. A computation takes the state of the machine and
  gives an outcome and the next state.
\<close>

datatype 'a outcome = Returned 'a | Threw string | Diverged

datatype fs_node = Directory | RegularFile (contents: string) (birthtime: JsDate) (mtime: JsDate)

datatype sys_call =
    ReadFile string
  | Readdir string
  | Stat string
  | Mkdir string
  | WriteFile string
  | CopyFile string string
  | Rename string string
  | Mkdtemp string
  | Remove string


text \<open>
  The state: the nodes of the file system under their absolute paths, and the journal of
  every file-system call issued so far, oldest first.
\<close>

record world =
  nodes :: "(string \<times> fs_node) list"
  journal :: "sys_call list"

type_synonym 'a io = "world \<Rightarrow> 'a outcome \<times> world"

definition return_io :: "'a \<Rightarrow> 'a io" where
  "return_io x = (\<lambda>w. (Returned x, w))"

definition throw_io :: "string \<Rightarrow> 'a io" where
  "throw_io msg = (\<lambda>w. (Threw msg, w))"

definition bind_io :: "'a io \<Rightarrow> ('a \<Rightarrow> 'b io) \<Rightarrow> 'b io" where
  "bind_io m f =
     (\<lambda>w. case m w of
             (Returned x, w') \<Rightarrow> f x w'
           | (Threw e, w') \<Rightarrow> (Threw e, w')
           | (Diverged, w') \<Rightarrow> (Diverged, w'))"

text \<open>\<open>try { m } catch (e) { h e }\<close> and \<open>try { m } finally { c }\<close>.\<close>

definition catch_io :: "'a io \<Rightarrow> (string \<Rightarrow> 'a io) \<Rightarrow> 'a io" where
  "catch_io m h =
     (\<lambda>w. case m w of
             (Threw e, w') \<Rightarrow> h e w'
           | r \<Rightarrow> r)"

definition finally_io :: "'a io \<Rightarrow> unit io \<Rightarrow> 'a io" where
  "finally_io m c =
     (\<lambda>w. case m w of
             (Diverged, w') \<Rightarrow> (Diverged, w')
           | (r, w') \<Rightarrow>
               (case c w' of
                  (Returned _, w'') \<Rightarrow> (r, w'')
                | (Threw e, w'') \<Rightarrow> (Threw e, w'')
                | (Diverged, w'') \<Rightarrow> (Diverged, w'')))"

text \<open>The entries of a zip archive as \<open>unzipper\<close> lists them, and what \<open>sharp\<close> reports.\<close>

record zip_entry =
  entry_path :: string
  entry_type :: "string option"
  entry_buffer :: "string option"

record image_metadata =
  meta_format :: string
  meta_width :: string
  meta_height :: string
  meta_space :: string
  meta_channels :: string
  meta_exif :: bool

text \<open>
  The platform: what the operating system and the installed packages decide, and the
  helpers whose source is outside the files at hand or computes in floating point.
  \<^item> \<open>os_refuses k\<close> is the error with which the operating system fails the call number
    \<open>k\<close>, if it does (no permission, disk full, ...);
  \<^item> \<open>clock k\<close> is what \<open>new Date()\<close> gives after \<open>k\<close> calls;
  \<^item> \<open>temp_suffix k\<close> are the characters \<open>mkdtemp\<close> appends;
  \<^item> \<open>unzipper\<close>, \<open>pdf_parse\<close>, \<open>mammoth\<close> are the optional packages (\<open>None\<close>: not
    installed), each a function of the bytes of a file that may fail; \<open>sharp_metadata\<close>
    likewise;
  \<^item> \<open>sanitizeFilename\<close> and \<open>getDatePath\<close> are the helpers of \<open>utils/formatting\<close>;
  \<^item> \<open>formatBytes\<close>, \<open>formatFileSize\<close>, \<open>below_tenth\<close> (\<open>n < len * 0.1\<close>) compute in
    floating point; \<open>extractFunctions\<close> and \<open>html_text\<close> are regular-expression scans;
    \<open>json_stringify\<close> is \<open>JSON.stringify\<close> on a string;
  \<^item> \<open>prototype_text k\<close> is the text of the property that every object literal
    inherits under the key \<open>k\<close> (such as \<open>constructor\<close>), if there is one.
\<close>

record platform =
  os_tmpdir :: string
  cwd :: string
  os_refuses :: "nat \<Rightarrow> string option"
  clock :: "nat \<Rightarrow> JsDate"
  temp_suffix :: "nat \<Rightarrow> string"
  unzipper :: "(string \<Rightarrow> zip_entry list option) option"
  pdf_parse :: "(string \<Rightarrow> string option) option"
  mammoth :: "(string \<Rightarrow> string option) option"
  sharp_metadata :: "string \<Rightarrow> image_metadata option"
  sanitizeFilename :: "string \<Rightarrow> string"
  getDatePath :: "JsDate \<Rightarrow> string"
  formatBytes :: "nat \<Rightarrow> string"
  formatFileSize :: "nat \<Rightarrow> string"
  below_tenth :: "nat \<Rightarrow> nat \<Rightarrow> bool"
  extractFunctions :: "string \<Rightarrow> string \<Rightarrow> string list"
  html_text :: "string \<Rightarrow> string"
  json_stringify :: "string \<Rightarrow> string"
  prototype_text :: "string \<Rightarrow> string option"

definition now :: "platform \<Rightarrow> world \<Rightarrow> JsDate" where
  "now P w = clock P (length (journal w))"

text \<open>\<open>new Date()\<close>.\<close>

definition current_date :: "platform \<Rightarrow> JsDate io" where
  "current_date P = (\<lambda>w. (Returned (now P w), w))"

text \<open>
  Every file-system call is entered in the journal; the operating system may fail it, and
  otherwise its body runs.
\<close>

definition sys :: "platform \<Rightarrow> sys_call \<Rightarrow> 'a io \<Rightarrow> 'a io" where
  "sys P call body =
     (\<lambda>w. let w1 = w\<lparr>journal := journal w @ [call]\<rparr> in
           case os_refuses P (length (journal w)) of
             Some err \<Rightarrow> (Threw err, w1)
           | None \<Rightarrow> body w1)"

definition fs_key :: "platform \<Rightarrow> string \<Rightarrow> string" where
  "fs_key P p = CHR ''/'' # join_with ''/'' (path_resolve_segments (cwd P) p)"

definition node_at :: "world \<Rightarrow> string \<Rightarrow> fs_node option" where
  "node_at w k = (if k = ''/'' then Some Directory else map_of (nodes w) k)"

definition put_node :: "string \<Rightarrow> fs_node \<Rightarrow> world \<Rightarrow> world" where
  "put_node k n w =
     w\<lparr>nodes := (if k \<in> fst ` set (nodes w)
                  then map (\<lambda>(k', n'). if k' = k then (k', n) else (k', n')) (nodes w)
                  else nodes w @ [(k, n)])\<rparr>"

definition del_node :: "string \<Rightarrow> world \<Rightarrow> world" where
  "del_node k w = w\<lparr>nodes := filter (\<lambda>(k', _). k' \<noteq> k) (nodes w)\<rparr>"

definition is_dir :: "world \<Rightarrow> string \<Rightarrow> bool" where
  "is_dir w k = (node_at w k = Some Directory)"

definition under :: "string \<Rightarrow> string \<Rightarrow> bool" where
  "under k k' \<longleftrightarrow> k' = k \<or> prefix (if k = ''/'' then k else k @ ''/'') k'"

subsection \<open>The calls of \<open>fs/promises\<close>\<close>

text \<open>A path as the message of a system error shows it, between apostrophes.\<close>

definition quoted :: "string \<Rightarrow> string" where
  "quoted p = [CHR 0x27] @ p @ [CHR 0x27]"

definition readFile :: "platform \<Rightarrow> string \<Rightarrow> string io" where
  "readFile P p =
     sys P (ReadFile p)
       (\<lambda>w. case node_at w (fs_key P p) of
               Some (RegularFile c _ _) \<Rightarrow> (Returned c, w)
             | Some Directory \<Rightarrow> (Threw ''EISDIR: illegal operation on a directory, read'', w)
             | None \<Rightarrow> (Threw (''ENOENT: no such file or directory, open '' @ quoted p), w))"

record dirent =
  dirent_name :: string
  dirent_isDirectory :: bool

definition readdir :: "platform \<Rightarrow> string \<Rightarrow> dirent list io" where
  "readdir P p =
     sys P (Readdir p)
       (\<lambda>w. let k = fs_key P p in
             case node_at w k of
               Some Directory \<Rightarrow>
                 (Returned
                    (map (\<lambda>(k', n). \<lparr>dirent_name = path_basename k',
                                      dirent_isDirectory = (n = Directory)\<rparr>)
                       (filter (\<lambda>(k', n). k' \<noteq> k \<and> path_dirname k' = k) (nodes w))), w)
             | Some (RegularFile _ _ _) \<Rightarrow> (Threw (''ENOTDIR: not a directory, scandir '' @ quoted p), w)
             | None \<Rightarrow> (Threw (''ENOENT: no such file or directory, scandir '' @ quoted p), w))"

record stats =
  stat_size :: nat
  stat_birthtime :: JsDate
  stat_mtime :: JsDate

definition stat :: "platform \<Rightarrow> string \<Rightarrow> stats io" where
  "stat P p =
     sys P (Stat p)
       (\<lambda>w. case node_at w (fs_key P p) of
               Some (RegularFile c b m) \<Rightarrow>
                 (Returned \<lparr>stat_size = length c, stat_birthtime = b, stat_mtime = m\<rparr>, w)
             | Some Directory \<Rightarrow>
                 (Returned \<lparr>stat_size = 0, stat_birthtime = now P w, stat_mtime = now P w\<rparr>, w)
             | None \<Rightarrow> (Threw (''ENOENT: no such file or directory, stat '' @ quoted p), w))"

definition is_regular :: "world \<Rightarrow> string \<Rightarrow> bool" where
  "is_regular w k = (case node_at w k of Some (RegularFile _ _ _) \<Rightarrow> True | _ \<Rightarrow> False)"

definition ancestors_and_self :: "platform \<Rightarrow> string \<Rightarrow> string list" where
  "ancestors_and_self P p =
     (let segs = path_resolve_segments (cwd P) p in
      map (\<lambda>i. CHR ''/'' # join_with ''/'' (take i segs)) [1..<Suc (length segs)])"

text \<open>\<open>fs.mkdir(p, { recursive: true })\<close>.\<close>

definition mkdir_recursive :: "platform \<Rightarrow> string \<Rightarrow> unit io" where
  "mkdir_recursive P p =
     sys P (Mkdir p)
       (\<lambda>w. let ks = ancestors_and_self P p in
             if list_ex (is_regular w) ks
             then (Threw (''EEXIST: file already exists, mkdir '' @ quoted p), w)
             else (Returned (),
                   fold (\<lambda>k w'. if node_at w' k = None then put_node k Directory w' else w') ks w))"

definition writeFile :: "platform \<Rightarrow> string \<Rightarrow> string \<Rightarrow> unit io" where
  "writeFile P p c =
     sys P (WriteFile p)
       (\<lambda>w. let k = fs_key P p in
             if \<not> is_dir w (path_dirname k)
             then (Threw (''ENOENT: no such file or directory, open '' @ quoted p), w)
             else case node_at w k of
                    Some Directory \<Rightarrow>
                      (Threw (''EISDIR: illegal operation on a directory, open '' @ quoted p), w)
                  | Some (RegularFile _ b _) \<Rightarrow>
                      (Returned (), put_node k (RegularFile c b (now P w)) w)
                  | None \<Rightarrow>
                      (Returned (), put_node k (RegularFile c (now P w) (now P w)) w))"

definition copyFile :: "platform \<Rightarrow> string \<Rightarrow> string \<Rightarrow> unit io" where
  "copyFile P src dst =
     sys P (CopyFile src dst)
       (\<lambda>w. let k = fs_key P dst in
             case node_at w (fs_key P src) of
               None \<Rightarrow> (Threw (''ENOENT: no such file or directory, copyfile '' @ quoted src @ '' -> '' @ quoted dst), w)
             | Some Directory \<Rightarrow>
                 (Threw (''EISDIR: illegal operation on a directory, copyfile '' @ quoted src @ '' -> '' @ quoted dst), w)
             | Some (RegularFile c _ _) \<Rightarrow>
                 if \<not> is_dir w (path_dirname k)
                 then (Threw (''ENOENT: no such file or directory, copyfile '' @ quoted src @ '' -> '' @ quoted dst), w)
                 else if is_dir w k
                 then (Threw (''EISDIR: illegal operation on a directory, copyfile '' @ quoted src @ '' -> '' @ quoted dst), w)
                 else (Returned (), put_node k (RegularFile c (now P w) (now P w)) w))"

text \<open>
  \<open>fs.rename\<close>: a file replaces a file or takes a free name; a directory moves with
  everything under it to a free name or onto an empty directory.
\<close>

definition rename :: "platform \<Rightarrow> string \<Rightarrow> string \<Rightarrow> unit io" where
  "rename P src dst =
     sys P (Rename src dst)
       (\<lambda>w. let ks = fs_key P src; kd = fs_key P dst in
             case node_at w ks of
               None \<Rightarrow> (Threw (''ENOENT: no such file or directory, rename '' @ quoted src @ '' -> '' @ quoted dst), w)
             | Some (RegularFile c b m) \<Rightarrow>
                 if \<not> is_dir w (path_dirname kd)
                 then (Threw (''ENOENT: no such file or directory, rename '' @ quoted src @ '' -> '' @ quoted dst), w)
                 else if is_dir w kd
                 then (Threw (''EISDIR: illegal operation on a directory, rename '' @ quoted src @ '' -> '' @ quoted dst), w)
                 else (Returned (), put_node kd (RegularFile c b m) (del_node ks w))
             | Some Directory \<Rightarrow>
                 if ks = kd then (Returned (), w)
                 else if ks = ''/'' \<or> under ks kd
                 then (Threw (''EINVAL: invalid argument, rename '' @ quoted src @ '' -> '' @ quoted dst), w)
                 else if \<not> is_dir w (path_dirname kd)
                 then (Threw (''ENOENT: no such file or directory, rename '' @ quoted src @ '' -> '' @ quoted dst), w)
                 else if is_regular w kd
                 then (Threw (''ENOTDIR: not a directory, rename '' @ quoted src @ '' -> '' @ quoted dst), w)
                 else if list_ex (\<lambda>(k', _). k' \<noteq> kd \<and> under kd k') (nodes w)
                 then (Threw (''ENOTEMPTY: directory not empty, rename '' @ quoted src @ '' -> '' @ quoted dst), w)
                 else (Returned (),
                       w\<lparr>nodes := map (\<lambda>(k', n). if under ks k'
                                                  then (kd @ drop (length ks) k', n) else (k', n))
                                     (filter (\<lambda>(k', _). k' \<noteq> kd) (nodes w))\<rparr>))"

text \<open>\<open>fs.mkdtemp(prefix)\<close>: a new directory named by the prefix and fresh characters.\<close>

definition mkdtemp :: "platform \<Rightarrow> string \<Rightarrow> string io" where
  "mkdtemp P pfx =
     sys P (Mkdtemp pfx)
       (\<lambda>w. let p = pfx @ temp_suffix P (length (journal w)); k = fs_key P p in
             if \<not> is_dir w (path_dirname k)
             then (Threw (''ENOENT: no such file or directory, mkdtemp '' @ quoted (pfx @ ''XXXXXX'')), w)
             else if node_at w k \<noteq> None
             then (Threw (''EEXIST: file already exists, mkdtemp '' @ quoted (pfx @ ''XXXXXX'')), w)
             else (Returned p, put_node k Directory w))"

text \<open>\<open>fs.rm(p, { recursive: true, force: true })\<close>.\<close>

definition rm_recursive_force :: "platform \<Rightarrow> string \<Rightarrow> unit io" where
  "rm_recursive_force P p =
     sys P (Remove p)
       (\<lambda>w. let k = fs_key P p in
             if k = ''/'' then (Threw (''EBUSY: resource busy or locked, rm '' @ quoted p), w)
             else (Returned (), w\<lparr>nodes := filter (\<lambda>(k', _). \<not> under k k') (nodes w)\<rparr>))"

section \<open>ContentExtractor\<close>

text \<open>
  A lookup \<open>table[key] || fallback\<close> in an object literal with string values: the
  literal's own entry when it is a non-empty string, else what the literal inherits under
  that key, else the fallback.
\<close>

definition lookup_or :: "platform \<Rightarrow> (string \<times> string) list \<Rightarrow> string \<Rightarrow> string \<Rightarrow> string" where
  "lookup_or P table key fallback =
     (case map_of table key of
        Some v \<Rightarrow> (if v = [] then fallback else v)
      | None \<Rightarrow> (case prototype_text P key of Some t \<Rightarrow> t | None \<Rightarrow> fallback))"

definition MAX_FILE_SIZE :: nat where
  "MAX_FILE_SIZE = 10 * 1024 * 1024"

definition extractText :: "platform \<Rightarrow> FileInfo \<Rightarrow> string io" where
  "extractText P file = readFile P (path file)"

text \<open>
  \<open>isTextContent\<close>: no character in \<open>[\x00-\x08\x0B-\x0C\x0E-\x1F]\<close>, or fewer of
  them than a tenth of the length.
\<close>

definition control_char :: "char \<Rightarrow> bool" where
  "control_char c =
     (let n = (of_char c :: nat) in n \<le> 8 \<or> n = 11 \<or> n = 12 \<or> (14 \<le> n \<and> n \<le> 31))"

definition isTextContent :: "platform \<Rightarrow> string \<Rightarrow> bool" where
  "isTextContent P content =
     (let nonPrintable = filter control_char content in
      nonPrintable = [] \<or> below_tenth P (length nonPrintable) (length content))"

definition extractBasic :: "platform \<Rightarrow> FileInfo \<Rightarrow> string option io" where
  "extractBasic P file =
     catch_io
       (bind_io (readFile P (path file))
          (\<lambda>content. return_io (if isTextContent P content then Some content else None)))
       (\<lambda>_. return_io None)"

text \<open>\<open>value || null\<close> on a string: the empty string becomes \<open>null\<close>.\<close>

definition or_null :: "string \<Rightarrow> string option" where
  "or_null s = (if s = [] then None else Some s)"

definition extractPDF :: "platform \<Rightarrow> FileInfo \<Rightarrow> string option io" where
  "extractPDF P file =
     catch_io
       (case pdf_parse P of
          None \<Rightarrow> throw_io ''Cannot find package pdf-parse''
        | Some pdf \<Rightarrow>
            bind_io (readFile P (path file))
              (\<lambda>dataBuffer. case pdf dataBuffer of
                               None \<Rightarrow> throw_io ''Invalid PDF structure''
                             | Some text \<Rightarrow> return_io (or_null text)))
       (\<lambda>_. return_io None)"

definition extractDOCX :: "platform \<Rightarrow> FileInfo \<Rightarrow> string option io" where
  "extractDOCX P file =
     catch_io
       (case mammoth P of
          None \<Rightarrow> throw_io ''Cannot find package mammoth''
        | Some extractRawText \<Rightarrow>
            bind_io (readFile P (path file))
              (\<lambda>bytes. case extractRawText bytes of
                          None \<Rightarrow> throw_io ''Could not read the document''
                        | Some v \<Rightarrow> return_io (or_null v)))
       (\<lambda>_. return_io None)"

definition extractODT :: "platform \<Rightarrow> FileInfo \<Rightarrow> string option io" where
  "extractODT P file = return_io None"

definition extractHTML :: "platform \<Rightarrow> FileInfo \<Rightarrow> string option io" where
  "extractHTML P file =
     catch_io
       (bind_io (readFile P (path file)) (\<lambda>content. return_io (Some (html_text P content))))
       (\<lambda>_. return_io None)"

definition extractDocument :: "platform \<Rightarrow> FileInfo \<Rightarrow> string option io" where
  "extractDocument P file =
     (let ext = toLowerCase (extension file) in
      if ext \<in> set [''txt'', ''md'', ''markdown'', ''rtf'']
        then bind_io (extractText P file) (\<lambda>c. return_io (Some c))
      else if ext = ''pdf'' then extractPDF P file
      else if ext \<in> set [''docx'', ''doc''] then extractDOCX P file
      else if ext = ''odt'' then extractODT P file
      else if ext \<in> set [''html'', ''htm''] then extractHTML P file
      else return_io None)"

definition extractImage :: "platform \<Rightarrow> FileInfo \<Rightarrow> string option io" where
  "extractImage P file =
     catch_io
       (bind_io (readFile P (path file))
          (\<lambda>bytes. case sharp_metadata P bytes of
                      None \<Rightarrow> throw_io ''Input file contains unsupported image format''
                    | Some metadata \<Rightarrow>
                        return_io (Some (join_with NL
                          [''Image: '' @ name file,
                           ''Format: '' @ meta_format metadata,
                           ''Dimensions: '' @ meta_width metadata @ ''x'' @ meta_height metadata,
                           ''Color space: '' @ meta_space metadata,
                           ''Channels: '' @ meta_channels metadata,
                           (if meta_exif metadata then ''Contains EXIF data''
                            else ''No EXIF data'')]))))
       (\<lambda>_. return_io
               (Some (''Image file: '' @ name file @ '' ('' @ toUpperCase (extension file) @ '')'')))"

definition mediaTypes :: "(string \<times> string) list" where
  "mediaTypes =
     [(''mp3'', ''MP3 Audio''), (''wav'', ''WAV Audio''), (''flac'', ''FLAC Audio''),
      (''aac'', ''AAC Audio''), (''ogg'', ''OGG Audio''), (''m4a'', ''M4A Audio''),
      (''mp4'', ''MP4 Video''), (''mkv'', ''MKV Video''), (''avi'', ''AVI Video''),
      (''mov'', ''QuickTime Video''), (''wmv'', ''WMV Video''), (''webm'', ''WebM Video'')]"

definition extractMedia :: "platform \<Rightarrow> FileInfo \<Rightarrow> string option io" where
  "extractMedia P file =
     (let ext = toLowerCase (extension file);
          mediaType = lookup_or P mediaTypes ext (toUpperCase ext @ '' Media'')
      in return_io (Some (join_with NL
           [''Media file: '' @ name file,
            ''Type: '' @ mediaType,
            ''Size: '' @ formatFileSize P (size_bytes file),
            ''Created: '' @ toLocaleDateString (createdAt file)])))"

definition archiveTypes :: "(string \<times> string) list" where
  "archiveTypes =
     [(''zip'', ''ZIP Archive''), (''rar'', ''RAR Archive''), (''tar'', ''TAR Archive''),
      (''gz'', ''GZIP Archive''), (''7z'', ''7-Zip Archive''), (''bz2'', ''BZIP2 Archive'')]"

definition extractArchiveMetadata :: "platform \<Rightarrow> FileInfo \<Rightarrow> string option io" where
  "extractArchiveMetadata P file =
     (let ext = toLowerCase (extension file);
          archiveType = lookup_or P archiveTypes ext (toUpperCase ext @ '' Archive'')
      in return_io (Some (join_with NL
           [''Archive: '' @ name file,
            ''Type: '' @ archiveType,
            ''Size: '' @ formatFileSize P (size_bytes file),
            ''Note: Archive contents not extracted for security''])))"

text \<open>
  \<open>ContentExtractor.extract\<close>: the size ceiling first, then the extraction for the
  file's type; whatever is thrown inside becomes \<open>null\<close>.
\<close>

definition maxSize :: "FileInfo \<Rightarrow> nat" where
  "maxSize file =
     (if ftype file = Image \<or> ftype file = Media then 50 * 1024 * 1024 else MAX_FILE_SIZE)"

definition ContentExtractor_extract :: "platform \<Rightarrow> FileInfo \<Rightarrow> string option io" where
  "ContentExtractor_extract P file =
     catch_io
       (if size_bytes file > maxSize file then return_io None
        else (case ftype file of
                Document \<Rightarrow> extractDocument P file
              | Code \<Rightarrow> bind_io (extractText P file) (\<lambda>c. return_io (Some c))
              | Data \<Rightarrow> bind_io (extractText P file) (\<lambda>c. return_io (Some c))
              | Image \<Rightarrow> extractImage P file
              | Media \<Rightarrow> extractMedia P file
              | Archive \<Rightarrow> extractArchiveMetadata P file
              | Unknown \<Rightarrow> extractBasic P file))
       (\<lambda>_. return_io None)"

section \<open>ClaudeService.suggestCategory\<close>

record CategorySuggestion =
  category :: string
  category_confidence :: rat
  reasoning :: string

definition capitalize :: "string \<Rightarrow> string" where
  "capitalize s = toUpperCase (take 1 s) @ drop 1 s"

text \<open>The first existing folder whose lower-cased name occurs in the lower-cased file name.\<close>

definition suggestCategory :: "FileInfo \<Rightarrow> string list \<Rightarrow> CategorySuggestion" where
  "suggestCategory file existingFolders =
     (let lowerName = toLowerCase (name file) in
      \<lparr>category =
         (case find (\<lambda>folder. str_includes lowerName (toLowerCase folder)) existingFolders of
            Some folder \<Rightarrow> folder
          | None \<Rightarrow> capitalize (FileType_value (ftype file))),
       category_confidence = 8 / 10,
       reasoning = ''Based on file type and name analysis''\<rparr>)"

section \<open>MarkdownGenerator.generate\<close>

text \<open>
  The frontmatter object. Its keys are rendered in the order in which the object literal
  lists them; \<open>archiveType\<close> and \<open>extractedFiles\<close> are present only in the summary of
  an expanded archive.
\<close>

record Frontmatter =
  title :: string
  originalFile :: string
  sourceLocation :: string
  fileType :: string
  archiveType :: "string option"
  extractedFiles :: "nat option"
  created :: string
  processed :: string
  fm_tags :: "string list"

definition generateFrontmatter :: "platform \<Rightarrow> Frontmatter \<Rightarrow> string" where
  "generateFrontmatter P fm =
     join_with NL
       ([''---'',
         ''title: '' @ json_stringify P (title fm),
         ''originalFile: '' @ json_stringify P (originalFile fm),
         ''sourceLocation: '' @ json_stringify P (sourceLocation fm),
         ''fileType: '' @ json_stringify P (fileType fm)]
        @ (case archiveType fm of
             None \<Rightarrow> []
           | Some t \<Rightarrow> [''archiveType: '' @ json_stringify P t])
        @ (case extractedFiles fm of
             None \<Rightarrow> []
           | Some n \<Rightarrow> [''extractedFiles: '' @ nat_to_string n])
        @ [''created: '' @ json_stringify P (created fm),
           ''processed: '' @ json_stringify P (processed fm),
           ''tags:'']
        @ map (\<lambda>t. ''  - '' @ t) (fm_tags fm)
        @ [''---'' @ NL])"

definition generateImageContent :: "platform \<Rightarrow> FileInfo \<Rightarrow> string" where
  "generateImageContent P file =
     join_with NL
       [''![['' @ name file @ '']]'',
        [],
        ''## Description'',
        ''Image file: '' @ name file,
        [],
        ''## Properties'',
        ''- **Format**: '' @ toUpperCase (extension file),
        ''- **Size**: '' @ formatBytes P (size_bytes file),
        ''- **Modified**: '' @ toLocaleDateString (modifiedAt file)]"

definition languageMap :: "(string \<times> string) list" where
  "languageMap =
     [(''js'', ''javascript''), (''ts'', ''typescript''), (''py'', ''python''), (''rb'', ''ruby''),
      (''java'', ''java''), (''cpp'', ''cpp''), (''c'', ''c''), (''cs'', ''csharp''), (''go'', ''go''),
      (''rs'', ''rust''), (''php'', ''php''), (''swift'', ''swift''), (''kt'', ''kotlin'')]"

definition getLanguageFromExtension :: "platform \<Rightarrow> string \<Rightarrow> string" where
  "getLanguageFromExtension P ext = lookup_or P languageMap ext ext"

definition generateCodeContent :: "platform \<Rightarrow> FileInfo \<Rightarrow> string option \<Rightarrow> string" where
  "generateCodeContent P file content =
     (let language = getLanguageFromExtension P (extension file) in
      join_with NL
        ([''## Overview'',
          ''Source code file written in '' @ language @ ''.'',
          []]
         @ (case content of
              None \<Rightarrow> []
            | Some c \<Rightarrow>
                if c = [] then []
                else
                  (let lines = split_char (CHR 0x0A) c;
                       functions = extractFunctions P c language
                   in [''## Statistics'',
                       ''- **Lines of code**: '' @ nat_to_string (length lines),
                       ''- **File size**: '' @ formatBytes P (size_bytes file),
                       []]
                      @ (if functions \<noteq> []
                         then [''## Key Functions'']
                              @ map (\<lambda>func. ''- `'' @ func @ ''`'') (take 10 functions)
                              @ [[]]
                         else [])
                      @ [''## Code Preview'',
                         ''```'' @ language,
                         join_with NL (take 50 lines)]
                      @ (if length lines > 50 then [''// ... (truncated)''] else [])
                      @ [''```'']))))"

definition generateDefaultContent :: "platform \<Rightarrow> FileInfo \<Rightarrow> string option \<Rightarrow> string" where
  "generateDefaultContent P file content =
     join_with NL
       ([''## File Information'',
         ''- **Type**: '' @ FileType_value (ftype file),
         ''- **Format**: '' @ extension file,
         ''- **Size**: '' @ formatBytes P (size_bytes file),
         ''- **Modified**: '' @ toLocaleDateString (modifiedAt file)]
        @ (case content of
             None \<Rightarrow> []
           | Some c \<Rightarrow>
               if c = [] then []
               else [[], ''## Content Preview'', ''```'', take 1000 c]
                    @ (if length c > 1000 then [''... (truncated)''] else [])
                    @ [''```'']))"

definition generateFooter :: "FileInfo \<Rightarrow> string" where
  "generateFooter file =
     NL @ ''---'' @ NL @ ''*Original file: ['' @ name file @ ''](file://'' @ path file @ '')*''"

definition generate :: "platform \<Rightarrow> FileInfo \<Rightarrow> string option \<Rightarrow> Frontmatter \<Rightarrow> string" where
  "generate P file content frontmatter =
     join_with NL
       [generateFrontmatter P frontmatter,
        ''# '' @ title frontmatter @ NL,
        (case ftype file of
           Image \<Rightarrow> generateImageContent P file
         | Code \<Rightarrow> generateCodeContent P file content
         | Document \<Rightarrow> generateDocumentContent content
         | _ \<Rightarrow> generateDefaultContent P file content),
        generateFooter file]"

section \<open>FileProcessor\<close>

text \<open>
  The part of the configuration that the processor reads: \<open>vault.path\<close>,
  \<open>vault.structure.*\<close>, \<open>originals.*\<close> and \<open>tagging.maxTags\<close>. \<open>maxTags\<close> is a
  JavaScript number; the model takes it as an integer of either sign.
\<close>

record Config =
  vault_path :: string
  structure_documents :: string
  structure_media :: string
  structure_code :: string
  structure_references :: string
  originals_path :: string
  organizationStyle :: string
  createYearFolders :: bool
  maxTags :: int

text \<open>
  The options of a run. The progress callback belongs to the caller: it may do to the
  state what it likes, and it may return, throw or never return.
\<close>

record ProcessOptions =
  dryRun :: bool
  copy :: bool
  batchSize :: int
  onProgress :: "(nat \<Rightarrow> nat \<Rightarrow> FileInfo \<Rightarrow> unit io) option"

record ProcessedFile =
  original :: FileInfo
  markdownPath :: string
  originalNewPath :: string
  content :: string
  frontmatter :: Frontmatter
  tags :: "string list"
  file_category :: string

subsection \<open>Arrays\<close>

text \<open>
  \<open>xs.sort(cmp)\<close> is stable: elements that the comparator does not separate keep their
  order. Inserting the elements from the last to the first, each before the first element
  it must not follow, gives that order.
\<close>

fun insert_by :: "('a \<Rightarrow> 'a \<Rightarrow> rat) \<Rightarrow> 'a \<Rightarrow> 'a list \<Rightarrow> 'a list" where
  "insert_by cmp x [] = [x]"
| "insert_by cmp x (y # ys) = (if cmp x y > 0 then y # insert_by cmp x ys else x # y # ys)"

definition js_sort :: "('a \<Rightarrow> 'a \<Rightarrow> rat) \<Rightarrow> 'a list \<Rightarrow> 'a list" where
  "js_sort cmp xs = foldr (insert_by cmp) xs []"

text \<open>\<open>xs.slice(0, end)\<close>: a negative \<open>end\<close> counts from the end of the array.\<close>

definition slice0 :: "int \<Rightarrow> 'a list \<Rightarrow> 'a list" where
  "slice0 end_index xs =
     (if end_index < 0 then take (nat (int (length xs) + end_index)) xs
      else take (nat end_index) xs)"

text \<open>A \<open>Set\<close> keeps its elements in the order of their first insertion.\<close>

definition set_add :: "'a \<Rightarrow> 'a list \<Rightarrow> 'a list" where
  "set_add x xs = (if x \<in> set xs then xs else xs @ [x])"

subsection \<open>Tags, folders and destinations\<close>

definition selectTags :: "Config \<Rightarrow> TagSuggestion list \<Rightarrow> string list" where
  "selectTags cfg tagSuggestions =
     map tag (slice0 (maxTags cfg) (js_sort (\<lambda>a b. confidence b - confidence a) tagSuggestions))"

definition getExistingVaultFolders :: "platform \<Rightarrow> Config \<Rightarrow> string list io" where
  "getExistingVaultFolders P cfg =
     catch_io
       (bind_io (readdir P (vault_path cfg))
          (\<lambda>entries. return_io
             (map dirent_name
                (filter (\<lambda>entry. dirent_isDirectory entry \<and> \<not> prefix ''.'' (dirent_name entry))
                   entries))))
       (\<lambda>_. return_io [])"

text \<open>
  \<open>typeMap[category.toLowerCase()] || references\<close>. \<open>None\<close> stands for a value that the
  object literal inherits under that key, which is not a string.
\<close>

definition mapCategoryToVaultFolder :: "platform \<Rightarrow> Config \<Rightarrow> string \<Rightarrow> string option" where
  "mapCategoryToVaultFolder P cfg cat =
     (let typeMap = [(''document'', structure_documents cfg),
                     (''image'', structure_media cfg),
                     (''code'', structure_code cfg),
                     (''media'', structure_media cfg)];
          key = toLowerCase cat
      in case map_of typeMap key of
           Some folder \<Rightarrow> Some (if folder = [] then structure_references cfg else folder)
         | None \<Rightarrow>
             (case prototype_text P key of
                Some _ \<Rightarrow> None
              | None \<Rightarrow> Some (structure_references cfg)))"

definition getOriginalFilePath :: "platform \<Rightarrow> Config \<Rightarrow> FileInfo \<Rightarrow> string \<Rightarrow> JsDate \<Rightarrow> string" where
  "getOriginalFilePath P cfg file cat today =
     (let basePath = originals_path cfg;
          basePath = (if createYearFolders cfg
                      then path_join [basePath, int_to_string (getFullYear (modifiedAt file))]
                      else basePath);
          basePath = (if organizationStyle cfg = ''type-based'' then path_join [basePath, cat]
                      else if organizationStyle cfg = ''date-based''
                        then path_join [basePath, getDatePath P today]
                      else basePath)
      in path_join [basePath, name file])"

definition ensureDirectory :: "platform \<Rightarrow> string \<Rightarrow> unit io" where
  "ensureDirectory P dirPath = mkdir_recursive P dirPath"

text \<open>
  The file operations that end each of the three processing routines, skipped in a dry
  run: both directories, the markdown file, then the copy or the move of the original.
\<close>

definition placeFiles :: "platform \<Rightarrow> ProcessOptions \<Rightarrow> FileInfo \<Rightarrow> string \<Rightarrow> string \<Rightarrow> string \<Rightarrow> unit io" where
  "placeFiles P opts file mdPath newPath markdownContent =
     (if \<not> dryRun opts then
        bind_io (ensureDirectory P (path_dirname mdPath)) (\<lambda>_.
        bind_io (ensureDirectory P (path_dirname newPath)) (\<lambda>_.
        bind_io (writeFile P mdPath markdownContent) (\<lambda>_.
          if copy opts then copyFile P (path file) newPath
          else rename P (path file) newPath)))
      else return_io ())"

text \<open>
  A vault folder that is not a string makes \<open>path.join\<close> throw a \<open>TypeError\<close>,
  whose message names what it received: the function \<open>Object\<close> under the key
  \<open>constructor\<close>, the prototype object under \<open>__proto__\<close>.
\<close>

definition vault_markdown_path :: "platform \<Rightarrow> Config \<Rightarrow> string \<Rightarrow> string \<Rightarrow> string io" where
  "vault_markdown_path P cfg cat file_name =
     (case mapCategoryToVaultFolder P cfg cat of
        None \<Rightarrow>
          throw_io (''The '' @ [CHR 0x22] @ ''path'' @ [CHR 0x22]
                    @ '' argument must be of type string. Received ''
                    @ (if toLowerCase cat = ''__proto__'' then ''an instance of Object''
                       else ''function Object''))
      | Some vaultCategory \<Rightarrow>
          return_io (path_join [vault_path cfg, vaultCategory, sanitizeFilename P file_name]))"

subsection \<open>An ordinary file\<close>

text \<open>
  \<open>processFileAsNormal\<close>, which is also, statement for statement, what \<open>processFile\<close>
  does with a file that is not an archive.
\<close>

definition processFileAsNormal :: "platform \<Rightarrow> Config \<Rightarrow> ProcessOptions \<Rightarrow> FileInfo \<Rightarrow> ProcessedFile io" where
  "processFileAsNormal P cfg opts file =
     bind_io (ContentExtractor_extract P file) (\<lambda>content.
       let tagSuggestions = suggestTags file (case content of None \<Rightarrow> None | Some c \<Rightarrow> or_null c);
           tags = selectTags cfg tagSuggestions
       in
       bind_io (getExistingVaultFolders P cfg) (\<lambda>existingFolders.
         let categorySuggestion = suggestCategory file existingFolders in
         bind_io (vault_markdown_path P cfg (category categorySuggestion)
                    (path_parse_name (name file) @ ''.md'')) (\<lambda>mdPath.
         bind_io (current_date P) (\<lambda>today.
           let newPath = getOriginalFilePath P cfg file (category categorySuggestion) today in
           bind_io (current_date P) (\<lambda>processedAt.
             let fm = \<lparr>title = path_parse_name (name file),
                       originalFile = ''[[file://'' @ newPath @ '']]'',
                       sourceLocation = path file,
                       fileType = extension file,
                       archiveType = None,
                       extractedFiles = None,
                       created = toISOString (createdAt file),
                       processed = toISOString processedAt,
                       fm_tags = tags\<rparr>;
                 markdownContent = generate P file content fm
             in bind_io (placeFiles P opts file mdPath newPath markdownContent) (\<lambda>_.
                  return_io \<lparr>original = file,
                             markdownPath = mdPath,
                             originalNewPath = newPath,
                             content = markdownContent,
                             frontmatter = fm,
                             tags = tags,
                             file_category = category categorySuggestion\<rparr>))))))"

subsection \<open>Expanding an archive\<close>

text \<open>
  \<open>extractArchive\<close> writes the entries of a zip archive under the output directory and
  returns the paths it wrote. An entry is written when it has no type or the type
  \<open>File\<close>. The loop over the entries runs inside \<open>try\<close> blocks whose handlers only
  warn, and it appends to an array declared outside them: the first failing step ends the
  loop, and the paths appended before it are returned.
\<close>

definition is_file_entry :: "zip_entry \<Rightarrow> bool" where
  "is_file_entry entry =
     (entry_type entry = None \<or> entry_type entry = Some [] \<or> entry_type entry = Some ''File'')"

definition write_entry :: "platform \<Rightarrow> string \<Rightarrow> zip_entry \<Rightarrow> string io" where
  "write_entry P outputDir entry =
     (let safe = safePath outputDir (entry_path entry) in
      bind_io (mkdir_recursive P (path_dirname safe)) (\<lambda>_.
        case entry_buffer entry of
          None \<Rightarrow> throw_io ''invalid entry data''
        | Some buffer \<Rightarrow> bind_io (writeFile P safe buffer) (\<lambda>_. return_io safe)))"

fun extract_entries :: "platform \<Rightarrow> string \<Rightarrow> zip_entry list \<Rightarrow> string list \<Rightarrow> string list io" where
  "extract_entries P outputDir [] extracted = return_io extracted"
| "extract_entries P outputDir (entry # rest) extracted =
     (if is_file_entry entry then
        (\<lambda>w. case write_entry P outputDir entry w of
                (Returned safe, w') \<Rightarrow> extract_entries P outputDir rest (extracted @ [safe]) w'
              | (Threw _, w') \<Rightarrow> (Returned extracted, w')
              | (Diverged, w') \<Rightarrow> (Diverged, w'))
      else extract_entries P outputDir rest extracted)"

definition extractArchive :: "platform \<Rightarrow> FileInfo \<Rightarrow> string \<Rightarrow> string list io" where
  "extractArchive P file outputDir =
     (if toLowerCase (extension file) = ''zip'' then
        (case unzipper P of
           None \<Rightarrow> return_io []
         | Some open_zip \<Rightarrow>
             catch_io
               (bind_io (readFile P (path file)) (\<lambda>bytes.
                  case open_zip bytes of
                    None \<Rightarrow> throw_io ''invalid zip file''
                  | Some files \<Rightarrow> extract_entries P outputDir files []))
               (\<lambda>_. return_io []))
      else return_io [])"

text \<open>
  The summary of an expanded archive. The members are grouped by category in an object;
  its keys come out with the array indices first, in ascending order, then the other
  names in the order of their insertion. A category under which the object inherits a
  property cannot receive a group: the \<open>push\<close> on it throws.
\<close>

definition digit_value :: "char \<Rightarrow> nat option" where
  "digit_value c = map_of (zip ''0123456789'' [0 ..< 10]) c"

definition array_index :: "string \<Rightarrow> nat option" where
  "array_index s =
     (if s = [] \<or> \<not> list_all (\<lambda>c. digit_value c \<noteq> None) s \<or> (length s > 1 \<and> hd s = CHR ''0'')
      then None
      else (let v = foldl (\<lambda>acc c. 10 * acc + the (digit_value c)) 0 s
            in if v < 4294967295 then Some v else None))"

definition group_key :: "ProcessedFile \<Rightarrow> string" where
  "group_key file = (if file_category file = [] then ''unknown'' else file_category file)"

fun group_push :: "ProcessedFile \<Rightarrow> (string \<times> ProcessedFile list) list \<Rightarrow> (string \<times> ProcessedFile list) list" where
  "group_push file [] = [(group_key file, [file])]"
| "group_push file ((k, fs) # groups) =
     (if k = group_key file then (k, fs @ [file]) # groups else (k, fs) # group_push file groups)"

definition object_entries :: "(string \<times> 'a) list \<Rightarrow> (string \<times> 'a) list" where
  "object_entries kvs =
     map snd (js_sort (\<lambda>a b. of_nat (fst a) - of_nat (fst b))
                (concat (map (\<lambda>kv. case array_index (fst kv) of
                                      Some i \<Rightarrow> [(i, kv)]
                                    | None \<Rightarrow> []) kvs)))
     @ filter (\<lambda>kv. array_index (fst kv) = None) kvs"

definition strip_md :: "string \<Rightarrow> string" where
  "strip_md s = (if suffix ''.md'' s then take (length s - 3) s else s)"

definition generateArchiveSummary :: "platform \<Rightarrow> Config \<Rightarrow> FileInfo \<Rightarrow> ProcessedFile list \<Rightarrow> string outcome" where
  "generateArchiveSummary P cfg archiveFile extracted =
     (if list_ex (\<lambda>file. prototype_text P (group_key file) \<noteq> None) extracted
      then Threw ''groups[category].push is not a function''
      else
        (let byCategory = fold group_push extracted [] in
         Returned (join_with NL
           ([''# Archive: '' @ name archiveFile,
             [],
             ''This archive contained '' @ nat_to_string (length extracted)
               @ '' files that were extracted and processed:'',
             []]
            @ concat (map (\<lambda>(cat, files).
                [''## '' @ capitalize cat @ '' Files ('' @ nat_to_string (length files) @ '')'',
                 []]
                @ map (\<lambda>file.
                    ''- [['' @ strip_md (path_relative (cwd P) (vault_path cfg) (markdownPath file))
                      @ ''|'' @ path_parse_name (name (original file)) @ '']]'') files
                @ [[]]) (object_entries byCategory))))))"

definition generateArchiveTags :: "Config \<Rightarrow> FileInfo \<Rightarrow> ProcessedFile list \<Rightarrow> string list" where
  "generateArchiveTags cfg archiveFile extracted =
     (let tags0 = fold set_add
                    [''type/archive'', ''format/'' @ extension archiveFile, ''source/expanded'',
                     date_tag (modifiedAt archiveFile)] [];
          childTags = fold set_add
                        (filter (\<lambda>t. \<not> prefix ''type/'' t \<and> \<not> prefix ''format/'' t)
                           (concat (map tags extracted))) [];
          tagCounts = map (\<lambda>t. (t, length (filter (\<lambda>file. t \<in> set (tags file)) extracted)))
                        childTags;
          top = take 5 (js_sort (\<lambda>a b. of_nat (snd b) - of_nat (snd a)) tagCounts);
          all_tags = fold set_add
                       (map (\<lambda>(t, _). ''contains/'' @ last (split_char CHR ''/'' t)) top) tags0
      in slice0 (maxTags cfg) all_tags)"

text \<open>
  The members of the archive, one after the other; a member whose processing throws is
  left out. \<open>self\<close> is the routine that processes one file.
\<close>

definition member_info :: "string \<Rightarrow> stats \<Rightarrow> FileInfo" where
  "member_info extractedFile st =
     \<lparr>path = extractedFile,
      name = path_basename extractedFile,
      extension = toLowerCase (drop 1 (path_extname extractedFile)),
      size_bytes = stat_size st,
      createdAt = stat_birthtime st,
      modifiedAt = stat_mtime st,
      ftype = determineFileType (toLowerCase (drop 1 (path_extname extractedFile)))\<rparr>"

fun process_members :: "(FileInfo \<Rightarrow> ProcessedFile io) \<Rightarrow> platform \<Rightarrow> string list \<Rightarrow> ProcessedFile list \<Rightarrow> ProcessedFile list io" where
  "process_members self P [] childResults = return_io childResults"
| "process_members self P (extractedFile # rest) childResults =
     bind_io
       (catch_io
          (bind_io (stat P extractedFile) (\<lambda>st.
             bind_io (self (member_info extractedFile st)) (\<lambda>processed.
               return_io (childResults @ [processed]))))
          (\<lambda>_. return_io childResults))
       (process_members self P rest)"

text \<open>
  \<open>processArchiveRecursively\<close>, in three parts: the record for the summary of the
  archive, built from the records of its members; the body of the \<open>try\<close> block; and the
  routine itself, which makes the temporary directory, runs the body and removes the
  directory whatever the body did.
\<close>

definition archive_summary_record :: "platform \<Rightarrow> Config \<Rightarrow> ProcessOptions \<Rightarrow> FileInfo \<Rightarrow> ProcessedFile list \<Rightarrow> ProcessedFile io" where
  "archive_summary_record P cfg opts file childResults =
     (case generateArchiveSummary P cfg file childResults of
        Threw e \<Rightarrow> throw_io e
      | Diverged \<Rightarrow> (\<lambda>w. (Diverged, w))
      | Returned archiveContent \<Rightarrow>
          (let tags = generateArchiveTags cfg file childResults in
           bind_io (getExistingVaultFolders P cfg) (\<lambda>existingFolders.
             let categorySuggestion = suggestCategory file existingFolders in
             bind_io (vault_markdown_path P cfg (category categorySuggestion)
                        (path_parse_name (name file) @ ''_archive.md'')) (\<lambda>mdPath.
             bind_io (current_date P) (\<lambda>today.
               let newPath = getOriginalFilePath P cfg file (category categorySuggestion) today in
               bind_io (current_date P) (\<lambda>processedAt.
                 let fm = \<lparr>title = ''Archive: '' @ path_parse_name (name file),
                           originalFile = ''[[file://'' @ newPath @ '']]'',
                           sourceLocation = path file,
                           fileType = extension file,
                           archiveType = Some ''expanded'',
                           extractedFiles = Some (length childResults),
                           created = toISOString (createdAt file),
                           processed = toISOString processedAt,
                           fm_tags = tags\<rparr>;
                     markdownContent = generate P file (Some archiveContent) fm
                 in bind_io (placeFiles P opts file mdPath newPath markdownContent) (\<lambda>_.
                      return_io \<lparr>original = file,
                                 markdownPath = mdPath,
                                 originalNewPath = newPath,
                                 content = markdownContent,
                                 frontmatter = fm,
                                 tags = tags,
                                 file_category = category categorySuggestion\<rparr>)))))))"

definition expand_archive :: "(FileInfo \<Rightarrow> ProcessedFile io) \<Rightarrow> platform \<Rightarrow> Config \<Rightarrow> ProcessOptions \<Rightarrow> FileInfo \<Rightarrow> string \<Rightarrow> ProcessedFile io" where
  "expand_archive self P cfg opts file tempExtractDir =
     bind_io (extractArchive P file tempExtractDir) (\<lambda>extracted.
       if extracted = [] then processFileAsNormal P cfg opts file
       else bind_io (process_members self P extracted [])
              (archive_summary_record P cfg opts file))"

definition processArchiveRecursively :: "(FileInfo \<Rightarrow> ProcessedFile io) \<Rightarrow> platform \<Rightarrow> Config \<Rightarrow> ProcessOptions \<Rightarrow> FileInfo \<Rightarrow> ProcessedFile io" where
  "processArchiveRecursively self P cfg opts file =
     bind_io (mkdtemp P (path_join [os_tmpdir P, ''polish-archive-''])) (\<lambda>tempExtractDir.
       finally_io (expand_archive self P cfg opts file tempExtractDir)
         (catch_io (rm_recursive_force P tempExtractDir) (\<lambda>_. return_io ())))"

text \<open>
  \<open>processFile\<close>. An archive inside an archive is expanded in turn, to any depth; the
  first argument bounds the depth, and a file nested deeper than that has no outcome.
\<close>

primrec processFile :: "nat \<Rightarrow> platform \<Rightarrow> Config \<Rightarrow> ProcessOptions \<Rightarrow> FileInfo \<Rightarrow> ProcessedFile io" where
  "processFile 0 P cfg opts file =
     (if ftype file = Archive then (\<lambda>w. (Diverged, w))
      else processFileAsNormal P cfg opts file)"
| "processFile (Suc depth) P cfg opts file =
     (if ftype file = Archive
      then processArchiveRecursively (processFile depth P cfg opts) P cfg opts file
      else processFileAsNormal P cfg opts file)"

subsection \<open>A batch of files\<close>






section \<open>Auxiliary notions for the proofs\<close>

text \<open>Two dots side by side somewhere in a string.\<close>

fun has_dotdot :: "string \<Rightarrow> bool" where
  "has_dotdot (a # b # cs) = ((a = CHR ''.'' \<and> b = CHR ''.'') \<or> has_dotdot (b # cs))"
| "has_dotdot cs = False"

text \<open>
  The shape of resolved segments: some \<open>..\<close> in front, only for a relative path, then
  plain names.
\<close>

definition resolved_shape :: "bool \<Rightarrow> string list \<Rightarrow> bool" where
  "resolved_shape a res \<longleftrightarrow>
     (\<exists>k names. res = replicate k ''..'' @ names \<and> (a \<or> k = 0)
        \<and> (\<forall>n\<in>set names. n \<noteq> [] \<and> n \<noteq> ''.'' \<and> n \<noteq> ''..''))"

text \<open>The calls issued between two states, and a computation that always settles.\<close>

definition issued :: "world \<Rightarrow> world \<Rightarrow> sys_call list" where
  "issued w w' = drop (length (journal w)) (journal w')"

definition settles :: "'a io \<Rightarrow> bool" where
  "settles m \<longleftrightarrow> (\<forall>w. fst (m w) \<noteq> Diverged)"

text \<open>The value of an outcome, if it is one.\<close>

definition returned :: "'a outcome \<Rightarrow> 'a option" where
  "returned r = (case r of Returned x \<Rightarrow> Some x | _ \<Rightarrow> None)"

text \<open>A step between states that issues only calls from a given set, or only reads.\<close>

definition only_calls :: "sys_call set \<Rightarrow> world \<Rightarrow> world \<Rightarrow> bool" where
  "only_calls S w w' \<longleftrightarrow> (\<exists>cs. journal w' = journal w @ cs \<and> set cs \<subseteq> S)"


definition keeps :: "(world \<Rightarrow> world \<Rightarrow> bool) \<Rightarrow> 'a io \<Rightarrow> bool" where
  "keeps R m \<longleftrightarrow> (\<forall>w. R w (snd (m w)))"




text \<open>
  The calls that write one archive entry, and the entries that the archive library lists
  for a file in a state.
\<close>

definition entry_calls :: "string \<Rightarrow> zip_entry \<Rightarrow> sys_call set" where
  "entry_calls outputDir entry =
     {Mkdir (path_dirname (safePath outputDir (entry_path entry))),
      WriteFile (safePath outputDir (entry_path entry))}"

definition listed_entries :: "platform \<Rightarrow> FileInfo \<Rightarrow> world \<Rightarrow> zip_entry list" where
  "listed_entries P file w =
     (case unzipper P of
        None \<Rightarrow> []
      | Some open_zip \<Rightarrow>
          (case node_at w (fs_key P (path file)) of
             Some (RegularFile bytes _ _) \<Rightarrow>
               (case open_zip bytes of Some files \<Rightarrow> files | None \<Rightarrow> [])
           | _ \<Rightarrow> []))"






text \<open>Splitting a string at every character of a kind.\<close>

fun split_where :: "(char \<Rightarrow> bool) \<Rightarrow> string \<Rightarrow> string list" where
  "split_where sep [] = [[]]"
| "split_where sep (x # xs) =
     (if sep x then [] # split_where sep xs
      else (case split_where sep xs of
              [] \<Rightarrow> [[x]]
            | p # ps \<Rightarrow> (x # p) # ps))"

definition name_separator :: "char \<Rightarrow> bool" where
  "name_separator c \<longleftrightarrow> c \<in> set ''._- ''"

definition whitespace :: "char \<Rightarrow> bool" where
  "whitespace c \<longleftrightarrow> c \<in> set [CHR '' '', CHR 0x09, CHR 0x0A, CHR 0x0B, CHR 0x0C, CHR 0x0D]"

text \<open>
  The filename words as the specification describes them: from the name without its
  extension, lower-cased, split at \<open>.\<close>, \<open>_\<close>, \<open>-\<close> and white space, the words longer
  than three characters.
\<close>

definition stem_words_claimed :: "string \<Rightarrow> string list" where
  "stem_words_claimed file_name =
     filter (\<lambda>word. length word > 3)
       (split_where (\<lambda>c. c \<in> set ''._-'' \<or> whitespace c)
          (toLowerCase (path_parse_name file_name)))"

section \<open>An example machine\<close>

text \<open>
  A small machine on which the theorems below are instantiated: a home directory with a
  text file, a tar archive and two copies of a zip archive, whose listing has a directory,
  a file that tries to climb out of the extraction directory, and a file with an absolute
  path. On the machine \<open>example_single\<close> every zip archive holds the one file
  \<open>main.py\<close>.
\<close>

definition example_date :: JsDate where
  "example_date =
     \<lparr>getTime = 1710000000000, getFullYear = 2024, getMonth = 2,
      toISOString = ''2024-03-09T16:00:00.000Z'', toLocaleDateString = ''3/9/2024''\<rparr>"

definition example_listing :: "zip_entry list" where
  "example_listing =
     [\<lparr>entry_path = ''docs/'', entry_type = Some ''Directory'', entry_buffer = Some []\<rparr>,
      \<lparr>entry_path = ''../../etc/passwd'', entry_type = Some ''File'', entry_buffer = Some ''root''\<rparr>,
      \<lparr>entry_path = ''/code/main.py'', entry_type = None, entry_buffer = Some ''pass''\<rparr>]"

definition example_platform :: platform where
  "example_platform =
     \<lparr>os_tmpdir = ''/tmp'', cwd = ''/home/u'',
      os_refuses = (\<lambda>_. None),
      clock = (\<lambda>_. example_date),
      temp_suffix = (\<lambda>_. ''Ab12Cd''),
      unzipper = Some (\<lambda>bytes. if bytes = ''PK'' then Some example_listing else None),
      pdf_parse = None,
      mammoth = None,
      sharp_metadata = (\<lambda>_. None),
      sanitizeFilename = (\<lambda>s. s),
      getDatePath = (\<lambda>_. ''2024/03''),
      formatBytes = (\<lambda>n. nat_to_string n @ '' Bytes''),
      formatFileSize = (\<lambda>n. nat_to_string n @ '' Bytes''),
      below_tenth = (\<lambda>n len. 10 * n < len),
      extractFunctions = (\<lambda>_ _. []),
      html_text = (\<lambda>s. s),
      json_stringify = (\<lambda>s. [CHR 0x22] @ s @ [CHR 0x22]),
      prototype_text = (\<lambda>k. if k = ''constructor'' then Some ''function Object() { [native code] }''
                             else None)\<rparr>"


definition example_config :: Config where
  "example_config =
     \<lparr>vault_path = ''/v'', structure_documents = ''Documents'', structure_media = ''Media'',
      structure_code = ''Code'', structure_references = ''References'',
      originals_path = ''/o'', organizationStyle = ''type-based'', createYearFolders = True,
      maxTags = 5\<rparr>"

definition example_world :: world where
  "example_world =
     \<lparr>nodes = [(''/tmp'', Directory), (''/home'', Directory), (''/home/u'', Directory),
               (''/home/u/project-meeting-notes.txt'',
                RegularFile ''some text'' example_date example_date),
               (''/home/u/pack.zip'', RegularFile ''PK'' example_date example_date),
               (''/home/u/old.tar'', RegularFile ''ustar'' example_date example_date),
               (''/home/u/code-pack.zip'', RegularFile ''PK'' example_date example_date)],
      journal = []\<rparr>"

definition example_notes :: FileInfo where
  "example_notes =
     \<lparr>path = ''/home/u/project-meeting-notes.txt'', name = ''project-meeting-notes.txt'',
      extension = ''txt'', size_bytes = 9, createdAt = example_date, modifiedAt = example_date,
      ftype = Document\<rparr>"

definition example_zip :: FileInfo where
  "example_zip =
     \<lparr>path = ''/home/u/pack.zip'', name = ''pack.zip'', extension = ''zip'', size_bytes = 2,
      createdAt = example_date, modifiedAt = example_date, ftype = Archive\<rparr>"




definition dry_run :: ProcessOptions where
  "dry_run = \<lparr>dryRun = True, copy = False, batchSize = 10, onProgress = None\<rparr>"

section \<open>Splitting and joining\<close>

lemma split_char_not_Nil [simp]: "split_char c xs \<noteq> []"
  by (induction xs) (auto split: list.splits)

lemma split_char_append:
  "split_char c (xs @ c # ys) = split_char c xs @ split_char c ys"
  by (induction xs) (auto split: list.splits)

lemma split_char_no_sep: "c \<notin> set xs \<Longrightarrow> split_char c xs = [xs]"
  by (induction xs) auto

lemma split_char_join:
  "segs \<noteq> [] \<Longrightarrow> \<forall>s\<in>set segs. c \<notin> set s \<Longrightarrow> split_char c (join_with [c] segs) = segs"
proof (induction segs rule: induct_list012)
  case 1
  then show ?case by simp
next
  case (2 p)
  then show ?case by (simp add: split_char_no_sep)
next
  case (3 p q ps)
  then show ?case
    using split_char_append[of c p "join_with [c] (q # ps)"]
    by (simp add: split_char_no_sep)
qed

lemma split_char_segments_no_sep: "s \<in> set (split_char c xs) \<Longrightarrow> c \<notin> set s"
  by (induction xs arbitrary: s) (auto split: list.splits if_splits)

lemma hd_split_char: "hd (split_char c xs) = takeWhile (\<lambda>x. x \<noteq> c) xs"
  by (induction xs) (auto split: list.splits)

lemma has_dotdot_Cons: "has_dotdot cs \<Longrightarrow> has_dotdot (c # cs)"
  by (cases cs) auto

lemma remove_dotdot_keep: "b \<noteq> CHR ''.'' \<Longrightarrow> remove_dotdot (b # cs) = b # remove_dotdot cs"
  by (cases cs) auto

lemma remove_dotdot_clean: "\<not> has_dotdot (remove_dotdot s)"
proof (induction s rule: remove_dotdot.induct)
  case (1 a b cs)
  show ?case
  proof (cases "a = CHR ''.'' \<and> b = CHR ''.''")
    case True
    with 1 show ?thesis by simp
  next
    case False
    with 1 have ih: "\<not> has_dotdot (remove_dotdot (b # cs))" by simp
    show ?thesis
    proof (cases "b = CHR ''.''")
      case True
      with False have "a \<noteq> CHR ''.''" by simp
      with ih False show ?thesis
        by (cases "remove_dotdot (b # cs)") auto
    next
      case nb: False
      with ih False show ?thesis
        by (simp add: remove_dotdot_keep)
    qed
  qed
qed simp_all

lemma dotdot_segment_has_dotdot:
  "''..'' \<in> set (split_char c s) \<Longrightarrow> has_dotdot s"
proof (induction s)
  case Nil
  then show ?case by simp
next
  case (Cons x xs)
  show ?case
  proof (cases "x = c")
    case True
    with Cons show ?thesis by (auto intro: has_dotdot_Cons)
  next
    case False
    obtain p ps where sp: "split_char c xs = p # ps"
      by (cases "split_char c xs") auto
    with False Cons.prems have "''..'' = x # p \<or> ''..'' \<in> set ps" by auto
    then show ?thesis
    proof
      assume "''..'' = x # p"
      then have x: "x = CHR ''.''" and p: "p = ''.''" by auto
      from sp have "takeWhile (\<lambda>y. y \<noteq> c) xs = p"
        using hd_split_char[of c xs] by simp
      with p obtain ys where "xs = CHR ''.'' # ys"
        by (cases xs) (auto split: if_splits)
      with x show ?thesis by simp
    next
      assume "''..'' \<in> set ps"
      with sp Cons.IH show ?thesis by (auto intro: has_dotdot_Cons)
    qed
  qed
qed

lemma sanitized_no_dotdot_segment:
  "''..'' \<notin> set (split_char CHR ''/'' (sanitize_entry_path e))"
  using dotdot_segment_has_dotdot remove_dotdot_clean
  unfolding sanitize_entry_path_def by blast

lemma fold_step_no_dotdot:
  "''..'' \<notin> set segs \<Longrightarrow>
   fold (normalize_step a) segs res = res @ filter (\<lambda>s. s \<noteq> [] \<and> s \<noteq> ''.'') segs"
  by (induction segs arbitrary: res) (auto simp: normalize_step_def)


lemma resolved_shape_step:
  assumes "resolved_shape a res"
  shows "resolved_shape a (normalize_step a seg res)"
proof -
  from assms obtain k names where res: "res = replicate k ''..'' @ names"
    and k: "a \<or> k = 0" and names: "\<forall>n\<in>set names. n \<noteq> [] \<and> n \<noteq> ''.'' \<and> n \<noteq> ''..''"
    unfolding resolved_shape_def by blast
  consider (skip) "seg = [] \<or> seg = ''.''" | (up) "seg = ''..''" | (name) "seg \<noteq> [] \<and> seg \<noteq> ''.'' \<and> seg \<noteq> ''..''"
    by blast
  then show ?thesis
  proof cases
    case skip
    with assms show ?thesis by (auto simp: normalize_step_def)
  next
    case up
    show ?thesis
    proof (cases "names = []")
      case True
      show ?thesis
      proof (cases a)
        case True
        have "normalize_step a seg res = replicate (Suc k) ''..'' @ []"
          using up res \<open>names = []\<close> True
          by (cases k) (auto simp: normalize_step_def replicate_append_same)
        then show ?thesis unfolding resolved_shape_def using True by (metis empty_iff list.set(1))
      next
        case False
        with k res \<open>names = []\<close> up have "normalize_step a seg res = []"
          by (simp add: normalize_step_def)
        then show ?thesis unfolding resolved_shape_def by auto
      qed
    next
      case False
      then have "last res = last names" "butlast res = replicate k ''..'' @ butlast names"
        using res by (simp_all add: butlast_append)
      moreover have "last names \<noteq> ''..''" using names False by (meson last_in_set)
      ultimately have "normalize_step a seg res = replicate k ''..'' @ butlast names"
        using up res False by (simp add: normalize_step_def)
      moreover have "\<forall>n\<in>set (butlast names). n \<noteq> [] \<and> n \<noteq> ''.'' \<and> n \<noteq> ''..''"
        using names by (meson in_set_butlastD)
      ultimately show ?thesis unfolding resolved_shape_def using k by blast
    qed
  next
    case name
    then have "normalize_step a seg res = replicate k ''..'' @ (names @ [seg])"
      using res by (simp add: normalize_step_def)
    moreover have "\<forall>n\<in>set (names @ [seg]). n \<noteq> [] \<and> n \<noteq> ''.'' \<and> n \<noteq> ''..''"
      using names name by auto
    ultimately show ?thesis unfolding resolved_shape_def using k by blast
  qed
qed

lemma resolved_shape_fold:
  "resolved_shape a res \<Longrightarrow> resolved_shape a (fold (normalize_step a) segs res)"
  by (induction segs arbitrary: res) (auto intro: resolved_shape_step)

lemma resolved_shape_normalizeString: "resolved_shape a (normalizeString a p)"
  unfolding normalizeString_def
  by (rule resolved_shape_fold) (auto simp: resolved_shape_def)

lemma fold_step_dotdots:
  "fold (normalize_step True) (replicate k ''..'') (replicate j ''..'') = replicate (j + k) ''..''"
proof (induction k arbitrary: j)
  case 0
  then show ?case by simp
next
  case (Suc k)
  have "normalize_step True ''..'' (replicate j ''..'') = replicate (Suc j) ''..''"
    by (cases j) (auto simp: normalize_step_def replicate_append_same)
  with Suc[of "Suc j"] show ?case by simp
qed

lemma fold_step_rebuild:
  assumes "resolved_shape a res"
  shows "fold (normalize_step a) res [] = res"
proof -
  from assms obtain k names where res: "res = replicate k ''..'' @ names"
    and k: "a \<or> k = 0" and names: "\<forall>n\<in>set names. n \<noteq> [] \<and> n \<noteq> ''.'' \<and> n \<noteq> ''..''"
    unfolding resolved_shape_def by blast
  have front: "fold (normalize_step a) (replicate k ''..'') [] = replicate k ''..''"
    using k fold_step_dotdots[of k 0] by (cases a) auto
  have "''..'' \<notin> set names" using names by blast
  then have "fold (normalize_step a) names (replicate k ''..'') = replicate k ''..'' @ filter (\<lambda>s. s \<noteq> [] \<and> s \<noteq> ''.'') names"
    by (rule fold_step_no_dotdot)
  moreover have "filter (\<lambda>s. s \<noteq> [] \<and> s \<noteq> ''.'') names = names"
    using names by (simp add: filter_id_conv)
  ultimately show ?thesis using res front by simp
qed

lemma fold_step_segments_subset:
  "set (fold (normalize_step a) segs res) \<subseteq> set res \<union> set segs \<union> {''..''}"
proof (induction segs arbitrary: res)
  case Nil
  then show ?case by auto
next
  case (Cons s segs)
  have "set (normalize_step a s res) \<subseteq> set res \<union> {s} \<union> {''..''}"
    by (auto simp: normalize_step_def dest: in_set_butlastD)
  with Cons[of "normalize_step a s res"] show ?case by auto
qed

lemma normalizeString_no_slash:
  "s \<in> set (normalizeString a p) \<Longrightarrow> CHR ''/'' \<notin> set s"
proof -
  assume "s \<in> set (normalizeString a p)"
  then have "s \<in> set (split_char CHR ''/'' p) \<or> s = ''..''"
    using fold_step_segments_subset[of a "split_char CHR ''/'' p" "[]"]
    unfolding normalizeString_def by auto
  then show ?thesis by (auto dest: split_char_segments_no_sep)
qed


lemma split_char_leading: "split_char c (c # xs) = [] # split_char c xs"
  by simp

lemma split_char_trailing: "split_char c (xs @ [c]) = split_char c xs @ [[]]"
  using split_char_append[of c xs "[]"] by simp

lemma fold_step_skip_empty [simp]: "normalize_step a [] res = res"
  by (simp add: normalize_step_def)

lemma resolved_segments_normalize:
  "resolved_segments (normalize p) = resolved_segments p"
proof (cases "p = []")
  case True
  then show ?thesis
    by (simp add: normalize_def resolved_segments_def normalizeString_def isAbsolute_def normalize_step_def)
next
  case False
  define a where "a = (\<not> isAbsolute p)"
  define segs where "segs = resolved_segments p"
  have shape: "resolved_shape a segs"
    unfolding segs_def a_def resolved_segments_def by (rule resolved_shape_normalizeString)
  show ?thesis
  proof (cases "segs = []")
    case True
    then have "normalize p = ''/'' \<or> normalize p = ''./'' \<or> normalize p = ''.''"
      using False unfolding normalize_def segs_def by (auto simp: Let_def)
    then have "resolved_segments (normalize p) = []"
      by (auto simp: resolved_segments_def normalizeString_def isAbsolute_def normalize_step_def)
    with True show ?thesis by (simp add: segs_def)
  next
    case nonempty: False
    define body where "body = join_with ''/'' segs"
    have noslash: "\<forall>s\<in>set segs. CHR ''/'' \<notin> set s"
      unfolding segs_def resolved_segments_def by (auto dest: normalizeString_no_slash)
    have split_body: "split_char CHR ''/'' body = segs"
      unfolding body_def using split_char_join[OF nonempty noslash] .
    have rebuild: "fold (normalize_step a) segs [] = segs"
      using shape by (rule fold_step_rebuild)
    obtain s0 rest where segs_cons: "segs = s0 # rest" using nonempty by (cases segs) auto
    have s0: "s0 \<noteq> []" "CHR ''/'' \<notin> set s0"
      using shape noslash segs_cons unfolding resolved_shape_def
      by (auto simp: Cons_eq_append_conv Cons_replicate_eq)
    have body_hd: "body \<noteq> [] \<and> hd body \<noteq> CHR ''/''"
      using s0 segs_cons unfolding body_def by (cases rest; cases s0) auto
    define pre :: string where "pre = (if isAbsolute p then ''/'' else [])"
    define post :: string where "post = (if last p = CHR ''/'' then ''/'' else [])"
    have norm: "normalize p = pre @ body @ post"
      using False nonempty unfolding normalize_def pre_def post_def body_def segs_def
      by (simp add: Let_def)
    have abs: "isAbsolute (normalize p) = isAbsolute p"
      using body_hd unfolding norm pre_def isAbsolute_def by (cases body) auto
    have "fold (normalize_step a) (split_char CHR ''/'' (pre @ body @ post)) [] = segs"
      using split_body rebuild split_char_trailing[of "CHR ''/''" body]
      unfolding pre_def post_def by auto
    then show ?thesis
      unfolding resolved_segments_def abs normalizeString_def norm[symmetric]
      using a_def segs_def by (simp add: norm resolved_segments_def normalizeString_def)
  qed
qed

lemma isAbsolute_normalize: "p \<noteq> [] \<Longrightarrow> isAbsolute (normalize p) = isAbsolute p"
proof -
  assume False: "p \<noteq> []"
  define a where "a = (\<not> isAbsolute p)"
  define segs where "segs = resolved_segments p"
  have shape: "resolved_shape a segs"
    unfolding segs_def a_def resolved_segments_def by (rule resolved_shape_normalizeString)
  show ?thesis
  proof (cases "segs = []")
    case True
    then show ?thesis using False unfolding normalize_def segs_def
      by (auto simp: Let_def isAbsolute_def)
  next
    case nonempty: False
    define body where "body = join_with ''/'' segs"
    have noslash: "\<forall>s\<in>set segs. CHR ''/'' \<notin> set s"
      unfolding segs_def resolved_segments_def by (auto dest: normalizeString_no_slash)
    obtain s0 rest where segs_cons: "segs = s0 # rest" using nonempty by (cases segs) auto
    have s0: "s0 \<noteq> []" "CHR ''/'' \<notin> set s0"
      using shape noslash segs_cons unfolding resolved_shape_def
      by (auto simp: Cons_eq_append_conv Cons_replicate_eq)
    have body_hd: "body \<noteq> [] \<and> hd body \<noteq> CHR ''/''"
      using s0 segs_cons unfolding body_def by (cases rest; cases s0) auto
    have norm: "normalize p = (if isAbsolute p then ''/'' else []) @ body @ (if last p = CHR ''/'' then ''/'' else [])"
      using False nonempty unfolding normalize_def body_def segs_def
      by (simp add: Let_def)
    show ?thesis
      using body_hd unfolding norm isAbsolute_def by (cases body) auto
  qed
qed

section \<open>Sanitised entry paths stay inside the output directory\<close>

lemma joined_absolute: "out \<noteq> [] \<Longrightarrow> isAbsolute (out @ rest) = isAbsolute out"
  by (cases out) (auto simp: isAbsolute_def)

lemma safePath_unfold:
  "out \<noteq> [] \<Longrightarrow>
   safePath out e =
     normalize (if sanitize_entry_path e = [] then out else out @ ''/'' @ sanitize_entry_path e)"
  by (simp add: safePath_def path_join_def)

lemma resolved_safePath:
  assumes "out \<noteq> []"
  shows "resolved_segments (safePath out e) =
           resolved_segments out
           @ filter (\<lambda>s. s \<noteq> [] \<and> s \<noteq> ''.'') (split_char CHR ''/'' (sanitize_entry_path e))"
proof (cases "sanitize_entry_path e = []")
  case True
  then show ?thesis
    using assms by (simp add: safePath_unfold resolved_segments_normalize)
next
  case False
  define s where "s = sanitize_entry_path e"
  have abs: "isAbsolute (out @ ''/'' @ s) = isAbsolute out"
    using assms by (rule joined_absolute)
  have split: "split_char CHR ''/'' (out @ ''/'' @ s) = split_char CHR ''/'' out @ split_char CHR ''/'' s"
    using split_char_append[of "CHR ''/''" out s] by simp
  have "resolved_segments (out @ ''/'' @ s) =
          fold (normalize_step (\<not> isAbsolute out)) (split_char CHR ''/'' s) (resolved_segments out)"
    unfolding resolved_segments_def normalizeString_def abs split by simp
  also have "\<dots> = resolved_segments out @ filter (\<lambda>x. x \<noteq> [] \<and> x \<noteq> ''.'') (split_char CHR ''/'' s)"
    using sanitized_no_dotdot_segment[of e] unfolding s_def by (rule fold_step_no_dotdot)
  finally show ?thesis
    using assms False unfolding s_def by (simp add: safePath_unfold resolved_segments_normalize)
qed

lemma isAbsolute_safePath: "out \<noteq> [] \<Longrightarrow> isAbsolute (safePath out e) = isAbsolute out"
  by (simp add: safePath_unfold isAbsolute_normalize joined_absolute)

lemma safePath_within: "out \<noteq> [] \<Longrightarrow> path_within out (safePath out e)"
  unfolding path_within_def by (simp add: isAbsolute_safePath resolved_safePath)

section \<open>Computations and the journal\<close>

lemma only_calls_refl: "only_calls S w w"
  by (simp add: only_calls_def)

lemma only_calls_trans: "only_calls S w w1 \<Longrightarrow> only_calls S w1 w2 \<Longrightarrow> only_calls S w w2"
  unfolding only_calls_def by force

lemma only_calls_mono: "S \<subseteq> T \<Longrightarrow> only_calls S w w' \<Longrightarrow> only_calls T w w'"
  unfolding only_calls_def by blast

lemma only_calls_issued: "only_calls S w w' \<Longrightarrow> set (issued w w') \<subseteq> S"
  unfolding only_calls_def issued_def by auto

lemma reflp_only_calls: "reflp (only_calls S)"
  by (simp add: reflp_def only_calls_refl)

lemma transp_only_calls: "transp (only_calls S)"
  unfolding transp_def using only_calls_trans by blast



lemma keepsD: "keeps R m \<Longrightarrow> m w = (r, w') \<Longrightarrow> R w w'"
  unfolding keeps_def by (metis snd_conv)


lemma keeps_return: "reflp R \<Longrightarrow> keeps R (return_io x)"
  by (simp add: keeps_def return_io_def reflp_def)

lemma keeps_throw: "reflp R \<Longrightarrow> keeps R (throw_io e)"
  by (simp add: keeps_def throw_io_def reflp_def)

lemma keeps_bind:
  assumes "transp R" "keeps R m" "\<And>x. keeps R (f x)"
  shows "keeps R (bind_io m f)"
  unfolding keeps_def
proof
  fix w
  obtain r w' where mw: "m w = (r, w')" by (cases "m w")
  with assms(2) have 1: "R w w'" by (rule keepsD)
  show "R w (snd (bind_io m f w))"
  proof (cases r)
    case (Returned x)
    from assms(3)[of x] have "R w' (snd (f x w'))" unfolding keeps_def by blast
    with 1 assms(1) have "R w (snd (f x w'))" by (meson transpE)
    with mw Returned show ?thesis by (simp add: bind_io_def)
  qed (use mw 1 in \<open>simp_all add: bind_io_def\<close>)
qed



lemma journal_put_node [simp]: "journal (put_node k n w) = journal w"
  by (simp add: put_node_def)

lemma journal_del_node [simp]: "journal (del_node k w) = journal w"
  by (simp add: del_node_def)

lemma journal_fold_mkdir [simp]:
  "journal (fold (\<lambda>k w'. if node_at w' k = None then put_node k Directory w' else w') ks w) = journal w"
  by (induction ks arbitrary: w) auto

text \<open>A call enters the journal once, whatever comes of it.\<close>

lemma sys_journal:
  assumes "\<And>w1. journal (snd (body w1)) = journal w1"
  shows "journal (snd (sys P call body w)) = journal w @ [call]"
  using assms by (simp add: sys_def Let_def split: option.splits)


lemma readFile_journal: "journal (snd (readFile P p w)) = journal w @ [ReadFile p]"
  unfolding readFile_def by (rule sys_journal) (simp split: option.splits fs_node.splits)






lemma mkdir_journal: "journal (snd (mkdir_recursive P p w)) = journal w @ [Mkdir p]"
  unfolding mkdir_recursive_def by (rule sys_journal) (simp add: Let_def)

lemma writeFile_journal: "journal (snd (writeFile P p c w)) = journal w @ [WriteFile p]"
  unfolding writeFile_def
  by (rule sys_journal) (simp add: Let_def split: option.splits fs_node.splits)

lemma copyFile_journal: "journal (snd (copyFile P s d w)) = journal w @ [CopyFile s d]"
  unfolding copyFile_def
  by (rule sys_journal) (simp add: Let_def split: option.splits fs_node.splits)

lemma rename_journal: "journal (snd (rename P s d w)) = journal w @ [Rename s d]"
  unfolding rename_def
  by (rule sys_journal) (simp add: Let_def split: option.splits fs_node.splits)



lemma keeps_only_calls_single:
  "(\<And>w. journal (snd (m w)) = journal w @ [c]) \<Longrightarrow> c \<in> S \<Longrightarrow> keeps (only_calls S) m"
  unfolding keeps_def only_calls_def by auto





section \<open>Computations that always settle\<close>

lemma settlesD: "settles m \<Longrightarrow> m w = (r, w') \<Longrightarrow> r \<noteq> Diverged"
  unfolding settles_def by (metis fst_conv)

lemma settles_return: "settles (return_io x)"
  by (simp add: settles_def return_io_def)

lemma settles_throw: "settles (throw_io e)"
  by (simp add: settles_def throw_io_def)

lemma settles_bind:
  assumes "settles m" "\<And>x. settles (f x)"
  shows "settles (bind_io m f)"
  unfolding settles_def
proof
  fix w
  obtain r w1 where mw: "m w = (r, w1)" by (cases "m w")
  with assms(1) have nd: "r \<noteq> Diverged" by (rule settlesD)
  show "fst (bind_io m f w) \<noteq> Diverged"
  proof (cases r)
    case (Returned x)
    obtain r2 w2 where fw: "f x w1 = (r2, w2)" by (cases "f x w1")
    with assms(2)[of x] have "r2 \<noteq> Diverged" by (rule settlesD)
    with mw Returned fw show ?thesis by (simp add: bind_io_def)
  qed (use mw nd in \<open>simp_all add: bind_io_def\<close>)
qed

lemma settles_catch:
  assumes "settles m" "\<And>e. settles (h e)"
  shows "settles (catch_io m h)"
  unfolding settles_def
proof
  fix w
  obtain r w1 where mw: "m w = (r, w1)" by (cases "m w")
  with assms(1) have nd: "r \<noteq> Diverged" by (rule settlesD)
  show "fst (catch_io m h w) \<noteq> Diverged"
  proof (cases r)
    case (Threw e)
    obtain r2 w2 where fw: "h e w1 = (r2, w2)" by (cases "h e w1")
    with assms(2)[of e] have "r2 \<noteq> Diverged" by (rule settlesD)
    with mw Threw fw show ?thesis by (simp add: catch_io_def)
  qed (use mw nd in \<open>simp_all add: catch_io_def\<close>)
qed

lemma settles_finally:
  assumes "settles m" "settles c"
  shows "settles (finally_io m c)"
  unfolding settles_def
proof
  fix w
  obtain r w1 where mw: "m w = (r, w1)" by (cases "m w")
  with assms(1) have nd: "r \<noteq> Diverged" by (rule settlesD)
  obtain r2 w2 where cw: "c w1 = (r2, w2)" by (cases "c w1")
  with assms(2) have nd2: "r2 \<noteq> Diverged" by (rule settlesD)
  show "fst (finally_io m c w) \<noteq> Diverged"
    using mw cw nd nd2 by (cases r; cases r2) (simp_all add: finally_io_def)
qed

lemma settles_sys: "(\<And>w. fst (body w) \<noteq> Diverged) \<Longrightarrow> settles (sys P call body)"
  by (simp add: settles_def sys_def Let_def split: option.splits)

lemma settles_readFile: "settles (readFile P p)"
  unfolding readFile_def by (rule settles_sys) (simp split: option.splits fs_node.splits)

lemma settles_readdir: "settles (readdir P p)"
  unfolding readdir_def by (rule settles_sys) (simp add: Let_def split: option.splits fs_node.splits)

lemma settles_stat: "settles (stat P p)"
  unfolding stat_def by (rule settles_sys) (simp split: option.splits fs_node.splits)

lemma settles_mkdir: "settles (mkdir_recursive P p)"
  unfolding mkdir_recursive_def by (rule settles_sys) (simp add: Let_def)

lemma settles_writeFile: "settles (writeFile P p c)"
  unfolding writeFile_def by (rule settles_sys) (simp add: Let_def split: option.splits fs_node.splits)

lemma settles_copyFile: "settles (copyFile P s d)"
  unfolding copyFile_def by (rule settles_sys) (simp add: Let_def split: option.splits fs_node.splits)

lemma settles_rename: "settles (rename P s d)"
  unfolding rename_def by (rule settles_sys) (simp add: Let_def split: option.splits fs_node.splits)

lemma settles_mkdtemp: "settles (mkdtemp P p)"
  unfolding mkdtemp_def by (rule settles_sys) (simp add: Let_def)

lemma settles_rm: "settles (rm_recursive_force P p)"
  unfolding rm_recursive_force_def by (rule settles_sys) (simp add: Let_def)

lemmas settles_intros =
  settles_return settles_throw settles_bind settles_catch settles_finally
  settles_readFile settles_readdir settles_stat settles_mkdir settles_writeFile
  settles_copyFile settles_rename settles_mkdtemp settles_rm

lemma settles_extractDocument: "settles (extractDocument P file)"
  unfolding extractDocument_def extractText_def extractPDF_def extractDOCX_def extractODT_def
    extractHTML_def Let_def
  by (intro settles_intros | simp split: option.splits | intro conjI impI allI)+

lemma settles_extract: "settles (ContentExtractor_extract P file)"
proof -
  have "settles (case ftype file of
                Document \<Rightarrow> extractDocument P file
              | Code \<Rightarrow> bind_io (extractText P file) (\<lambda>c. return_io (Some c))
              | Data \<Rightarrow> bind_io (extractText P file) (\<lambda>c. return_io (Some c))
              | Image \<Rightarrow> extractImage P file
              | Media \<Rightarrow> extractMedia P file
              | Archive \<Rightarrow> extractArchiveMetadata P file
              | Unknown \<Rightarrow> extractBasic P file)"
    by (cases "ftype file")
      (simp_all add: settles_extractDocument extractText_def extractImage_def extractMedia_def
         extractArchiveMetadata_def extractBasic_def Let_def settles_intros split: option.splits)
  then show ?thesis
    unfolding ContentExtractor_extract_def by (intro settles_intros) (simp add: settles_intros)
qed


lemma settles_folders: "settles (getExistingVaultFolders P cfg)"
  unfolding getExistingVaultFolders_def by (intro settles_intros)




text \<open>A handler for everything leaves no way to throw.\<close>

lemma extract_returns: "\<exists>c w'. ContentExtractor_extract P file w = (Returned c, w')"
proof -
  obtain r w1 where e: "ContentExtractor_extract P file w = (r, w1)"
    by (cases "ContentExtractor_extract P file w")
  have "r \<noteq> Diverged" using settlesD[OF settles_extract e] .
  moreover have "r \<noteq> Threw x" for x
    using e unfolding ContentExtractor_extract_def
    by (auto simp: catch_io_def return_io_def split: prod.splits outcome.splits)
  ultimately show ?thesis using e by (cases r) auto
qed

lemma folders_returns: "\<exists>fs w'. getExistingVaultFolders P cfg w = (Returned fs, w')"
proof -
  obtain r w1 where e: "getExistingVaultFolders P cfg w = (r, w1)"
    by (cases "getExistingVaultFolders P cfg w")
  have "r \<noteq> Diverged" using settlesD[OF settles_folders e] .
  moreover have "r \<noteq> Threw x" for x
    using e unfolding getExistingVaultFolders_def
    by (auto simp: catch_io_def return_io_def split: prod.splits outcome.splits)
  ultimately show ?thesis using e by (cases r) auto
qed

section \<open>What the extraction of an archive touches\<close>

lemma mkdir_only_calls: "Mkdir p \<in> S \<Longrightarrow> keeps (only_calls S) (mkdir_recursive P p)"
  by (rule keeps_only_calls_single[where c = "Mkdir p"]) (simp_all add: mkdir_journal)

lemma writeFile_only_calls: "WriteFile p \<in> S \<Longrightarrow> keeps (only_calls S) (writeFile P p c)"
  by (rule keeps_only_calls_single[where c = "WriteFile p"]) (simp_all add: writeFile_journal)

lemma readFile_only_calls: "ReadFile p \<in> S \<Longrightarrow> keeps (only_calls S) (readFile P p)"
  by (rule keeps_only_calls_single[where c = "ReadFile p"]) (simp_all add: readFile_journal)

lemma write_entry_calls: "keeps (only_calls (entry_calls out e)) (write_entry P out e)"
proof -
  have "keeps (only_calls (entry_calls out e))
          (case entry_buffer e of
             None \<Rightarrow> throw_io ''invalid entry data''
           | Some buffer \<Rightarrow> bind_io (writeFile P (safePath out (entry_path e)) buffer)
                              (\<lambda>_. return_io (safePath out (entry_path e))))"
    by (cases "entry_buffer e")
      (auto intro!: keeps_bind keeps_throw keeps_return writeFile_only_calls
         reflp_only_calls transp_only_calls simp: entry_calls_def)
  then show ?thesis
    unfolding write_entry_def Let_def
    by (intro keeps_bind transp_only_calls mkdir_only_calls) (simp_all add: entry_calls_def)
qed

lemma write_entry_result:
  "write_entry P out e w = (Returned p, w') \<Longrightarrow> p = safePath out (entry_path e)"
  by (auto simp: write_entry_def Let_def bind_io_def return_io_def throw_io_def
      split: prod.splits outcome.splits option.splits)

lemma extract_entries_calls:
  "keeps (only_calls (\<Union>e\<in>{e \<in> set entries. is_file_entry e}. entry_calls out e))
     (extract_entries P out entries acc)"
proof (induction entries arbitrary: acc)
  case Nil
  then show ?case by (simp add: keeps_return reflp_only_calls)
next
  case (Cons e es)
  define S where "S = (\<Union>x\<in>{x \<in> set (e # es). is_file_entry x}. entry_calls out x)"
  have sub: "(\<Union>x\<in>{x \<in> set es. is_file_entry x}. entry_calls out x) \<subseteq> S"
    unfolding S_def by auto
  have ih: "keeps (only_calls S) (extract_entries P out es acc')" for acc'
    using Cons.IH[of acc'] only_calls_mono[OF sub] unfolding keeps_def by blast
  show ?case
  proof (cases "is_file_entry e")
    case False
    with ih show ?thesis unfolding S_def by simp
  next
    case True
    then have "entry_calls out e \<subseteq> S" unfolding S_def by auto
    then have we: "keeps (only_calls S) (write_entry P out e)"
      using write_entry_calls[of out e P] only_calls_mono unfolding keeps_def by blast
    have "keeps (only_calls S) (extract_entries P out (e # es) acc)"
      unfolding keeps_def
    proof
      fix w
      obtain r w' where ww: "write_entry P out e w = (r, w')" by (cases "write_entry P out e w")
      from we ww have 1: "only_calls S w w'" by (rule keepsD)
      show "only_calls S w (snd (extract_entries P out (e # es) acc w))"
      proof (cases r)
        case (Returned p)
        have "only_calls S w' (snd (extract_entries P out es (acc @ [p]) w'))"
          using ih[of "acc @ [p]"] unfolding keeps_def by blast
        with 1 have "only_calls S w (snd (extract_entries P out es (acc @ [p]) w'))"
          by (rule only_calls_trans)
        with True ww Returned show ?thesis by simp
      qed (use True ww 1 in simp_all)
    qed
    then show ?thesis unfolding S_def .
  qed
qed

lemma extract_entries_paths:
  "extract_entries P out entries acc w = (Returned ps, w') \<Longrightarrow>
   set ps \<subseteq> set acc \<union> {safePath out (entry_path e) |e. e \<in> set entries \<and> is_file_entry e}"
proof (induction entries arbitrary: acc w)
  case Nil
  then show ?case by (auto simp: return_io_def)
next
  case (Cons e es)
  show ?case
  proof (cases "is_file_entry e")
    case False
    with Cons.prems have "extract_entries P out es acc w = (Returned ps, w')" by simp
    from Cons.IH[OF this] show ?thesis by auto
  next
    case True
    obtain r w1 where ww: "write_entry P out e w = (r, w1)" by (cases "write_entry P out e w")
    show ?thesis
    proof (cases r)
      case (Returned p)
      with True ww Cons.prems have "extract_entries P out es (acc @ [p]) w1 = (Returned ps, w')"
        by simp
      from Cons.IH[OF this] write_entry_result[of P out e w p w1] ww Returned True
      show ?thesis by auto
    next
      case (Threw x)
      with True ww Cons.prems show ?thesis by auto
    next
      case Diverged
      with True ww Cons.prems show ?thesis by auto
    qed
  qed
qed

lemma node_at_journal [simp]: "node_at (w\<lparr>journal := j\<rparr>) k = node_at w k"
  by (simp add: node_at_def)

text \<open>What the read of the archive hands to the loop is what the library lists.\<close>

lemma readFile_result:
  "readFile P p w = (Returned bytes, w') \<Longrightarrow>
   \<exists>b m. node_at w (fs_key P p) = Some (RegularFile bytes b m)"
  by (auto simp: readFile_def sys_def Let_def split: option.splits fs_node.splits)

lemma extractArchive_calls:
  "only_calls ({ReadFile (path file)} \<union>
            (\<Union>e\<in>{e \<in> set (listed_entries P file w). is_file_entry e}. entry_calls out e))
     w (snd (extractArchive P file out w))"
proof -
  define S where "S = {ReadFile (path file)} \<union>
            (\<Union>e\<in>{e \<in> set (listed_entries P file w). is_file_entry e}. entry_calls out e)"
  show ?thesis
  proof (cases "toLowerCase (extension file) = ''zip''")
    case False
    then show ?thesis by (simp add: extractArchive_def return_io_def only_calls_refl)
  next
    case zip: True
    show ?thesis
    proof (cases "unzipper P")
      case None
      with zip show ?thesis by (simp add: extractArchive_def return_io_def only_calls_refl)
    next
      case (Some open_zip)
      obtain r w1 where rf: "readFile P (path file) w = (r, w1)" by (cases "readFile P (path file) w")
      have 1: "only_calls S w w1"
        using keepsD[OF readFile_only_calls[of "path file" S P] rf] unfolding S_def by simp
      show ?thesis
      proof (cases r)
        case (Returned bytes)
        from readFile_result[OF rf[unfolded Returned]] obtain b m
          where node: "node_at w (fs_key P (path file)) = Some (RegularFile bytes b m)" by blast
        show ?thesis
        proof (cases "open_zip bytes")
          case None
          with zip Some rf Returned 1 show ?thesis
            by (simp add: extractArchive_def catch_io_def bind_io_def throw_io_def return_io_def S_def)
        next
          case (Some files)
          with node \<open>unzipper P = Some open_zip\<close> have le: "listed_entries P file w = files"
            by (simp add: listed_entries_def)
          obtain r2 w2 where ee: "extract_entries P out files [] w1 = (r2, w2)"
            by (cases "extract_entries P out files [] w1")
          have "only_calls S w1 w2"
            using keepsD[OF extract_entries_calls ee] only_calls_mono[of _ S] le unfolding S_def
            by blast
          with 1 have 2: "only_calls S w w2" by (rule only_calls_trans)
          from zip \<open>unzipper P = Some open_zip\<close> rf Returned Some ee
          have "snd (extractArchive P file out w) = w2"
            by (cases r2) (simp_all add: extractArchive_def catch_io_def bind_io_def return_io_def)
          with 2 show ?thesis unfolding S_def by simp
        qed
      next
        case (Threw x)
        with zip Some rf 1 show ?thesis
          by (simp add: extractArchive_def catch_io_def bind_io_def return_io_def S_def)
      next
        case Diverged
        with zip Some rf 1 show ?thesis
          by (simp add: extractArchive_def catch_io_def bind_io_def return_io_def S_def)
      qed
    qed
  qed
qed

lemma extractArchive_paths:
  assumes "extractArchive P file out w = (Returned ps, w')"
  shows "set ps \<subseteq> {safePath out (entry_path e) |e. e \<in> set (listed_entries P file w) \<and> is_file_entry e}"
proof (cases "toLowerCase (extension file) = ''zip''")
  case False
  with assms show ?thesis by (auto simp: extractArchive_def return_io_def)
next
  case zip: True
  show ?thesis
  proof (cases "unzipper P")
    case None
    with zip assms show ?thesis by (auto simp: extractArchive_def return_io_def)
  next
    case (Some open_zip)
    obtain r w1 where rf: "readFile P (path file) w = (r, w1)" by (cases "readFile P (path file) w")
    show ?thesis
    proof (cases r)
      case (Returned bytes)
      from readFile_result[OF rf[unfolded Returned]] obtain b m
        where node: "node_at w (fs_key P (path file)) = Some (RegularFile bytes b m)" by blast
      show ?thesis
      proof (cases "open_zip bytes")
        case None
        with zip Some rf Returned assms show ?thesis
          by (auto simp: extractArchive_def catch_io_def bind_io_def throw_io_def return_io_def)
      next
        case (Some files)
        with node \<open>unzipper P = Some open_zip\<close> have le: "listed_entries P file w = files"
          by (simp add: listed_entries_def)
        obtain r2 w2 where ee: "extract_entries P out files [] w1 = (r2, w2)"
          by (cases "extract_entries P out files [] w1")
        from zip \<open>unzipper P = Some open_zip\<close> rf Returned Some ee assms
        have "r2 = Returned ps \<or> ps = []"
          by (cases r2) (auto simp: extractArchive_def catch_io_def bind_io_def return_io_def)
        with ee extract_entries_paths[of P out files "[]" w1 ps w2] le show ?thesis by auto
      qed
    next
      case (Threw x)
      with zip Some rf assms show ?thesis
        by (auto simp: extractArchive_def catch_io_def bind_io_def return_io_def)
    next
      case Diverged
      with zip Some rf assms show ?thesis
        by (auto simp: extractArchive_def catch_io_def bind_io_def return_io_def)
    qed
  qed
qed

lemma directory_entry_skipped: "entry_type e = Some ''Directory'' \<Longrightarrow> \<not> is_file_entry e"
  by (simp add: is_file_entry_def)

text \<open>
  Claim C3: the destination of every archive entry, \<open>path.join\<close> of the output directory
  with the entry path stripped of leading slashes and of every \<open>..\<close>, lies inside the
  output directory, and entries of type \<open>Directory\<close> are not written. Every call that
  \<open>extractArchive\<close> makes is the read of the archive, or the \<open>mkdir\<close> or the
  \<open>writeFile\<close> for an entry that is not a directory, at its sanitised path; every path
  it returns is such a path and lies inside the output directory.
\<close>

theorem extractArchive_confined:
  assumes "outputDir \<noteq> []"
  shows "path_within outputDir (safePath outputDir entryPath)
    \<and> (\<forall>c \<in> set (issued w (snd (extractArchive P file outputDir w))).
          c = ReadFile (path file)
          \<or> (\<exists>e \<in> set (listed_entries P file w).
                entry_type e \<noteq> Some ''Directory'' \<and> c \<in> entry_calls outputDir e))
    \<and> (\<forall>ps. fst (extractArchive P file outputDir w) = Returned ps \<longrightarrow>
          (\<forall>p \<in> set ps. path_within outputDir p
             \<and> (\<exists>e \<in> set (listed_entries P file w).
                   entry_type e \<noteq> Some ''Directory'' \<and> p = safePath outputDir (entry_path e))))"
proof (intro conjI allI impI ballI)
  show "path_within outputDir (safePath outputDir entryPath)"
    using assms by (rule safePath_within)
next
  fix c
  assume "c \<in> set (issued w (snd (extractArchive P file outputDir w)))"
  moreover have "set (issued w (snd (extractArchive P file outputDir w)))
      \<subseteq> {ReadFile (path file)} \<union>
            (\<Union>e\<in>{e \<in> set (listed_entries P file w). is_file_entry e}. entry_calls outputDir e)"
    by (rule only_calls_issued[OF extractArchive_calls])
  ultimately show "c = ReadFile (path file)
          \<or> (\<exists>e \<in> set (listed_entries P file w).
                entry_type e \<noteq> Some ''Directory'' \<and> c \<in> entry_calls outputDir e)"
    using directory_entry_skipped by fastforce
next
  fix ps p
  assume r: "fst (extractArchive P file outputDir w) = Returned ps" and p: "p \<in> set ps"
  obtain w' where "extractArchive P file outputDir w = (Returned ps, w')"
    using r by (cases "extractArchive P file outputDir w") auto
  from extractArchive_paths[OF this] p obtain e
    where e: "e \<in> set (listed_entries P file w)" "is_file_entry e" "p = safePath outputDir (entry_path e)"
    by blast
  then show "path_within outputDir p" using assms by (simp add: safePath_within)
  from e show "\<exists>e \<in> set (listed_entries P file w).
                   entry_type e \<noteq> Some ''Directory'' \<and> p = safePath outputDir (entry_path e)"
    using directory_entry_skipped by blast
qed

theorem extractArchive_confined_witness:
  "safePath ''/tmp/out'' ''../../etc/passwd'' = ''/tmp/out/etc/passwd''
   \<and> path_within ''/tmp/out'' (safePath ''/tmp/out'' ''../../etc/passwd'')
   \<and> issued example_world
         (snd (extractArchive example_platform example_zip ''/tmp/out'' example_world))
       = [ReadFile ''/home/u/pack.zip'', Mkdir ''/tmp/out/etc'', WriteFile ''/tmp/out/etc/passwd'',
          Mkdir ''/tmp/out/code'', WriteFile ''/tmp/out/code/main.py'']
   \<and> fst (extractArchive example_platform example_zip ''/tmp/out'' example_world)
       = Returned [''/tmp/out/etc/passwd'', ''/tmp/out/code/main.py'']
   \<and> path_within ''/tmp/out'' ''/tmp/out/etc/passwd''
   \<and> path_within ''/tmp/out'' ''/tmp/out/code/main.py''"
proof -
  have ne: "''/tmp/out'' \<noteq> ([] :: string)" by simp
  have calls: "issued example_world
         (snd (extractArchive example_platform example_zip ''/tmp/out'' example_world))
       = [ReadFile ''/home/u/pack.zip'', Mkdir ''/tmp/out/etc'', WriteFile ''/tmp/out/etc/passwd'',
          Mkdir ''/tmp/out/code'', WriteFile ''/tmp/out/code/main.py'']"
    by code_simp
  have paths: "fst (extractArchive example_platform example_zip ''/tmp/out'' example_world)
       = Returned [''/tmp/out/etc/passwd'', ''/tmp/out/code/main.py'']"
    by code_simp
  have safe: "safePath ''/tmp/out'' ''../../etc/passwd'' = ''/tmp/out/etc/passwd''"
    by code_simp
  from extractArchive_confined[OF ne, of "''../../etc/passwd''" example_world example_platform
      example_zip]
  show ?thesis
    unfolding calls paths safe by simp
qed

section \<open>Outcomes of composed computations\<close>

lemma bind_io_Returned:
  assumes "bind_io m f w = (Returned y, w')"
  obtains x w1 where "m w = (Returned x, w1)" "f x w1 = (Returned y, w')"
  using assms by (auto simp: bind_io_def split: prod.splits outcome.splits)

lemma catch_io_Returned:
  assumes "catch_io m h w = (Returned y, w')"
  obtains "m w = (Returned y, w')" | e w1 where "m w = (Threw e, w1)" "h e w1 = (Returned y, w')"
  using assms by (auto simp: catch_io_def split: prod.splits outcome.splits)

lemma finally_io_Returned:
  assumes "finally_io m c w = (Returned y, w')"
  obtains w1 where "m w = (Returned y, w1)"
  using assms by (auto simp: finally_io_def split: prod.splits outcome.splits)

lemma return_io_Returned [simp]: "return_io x w = (Returned y, w') \<longleftrightarrow> x = y \<and> w = w'"
  by (auto simp: return_io_def)

lemma throw_io_Returned [simp]: "throw_io e w \<noteq> (Returned y, w')"
  by (simp add: throw_io_def)

section \<open>The size ceiling of the extractor\<close>

lemma extractImage_Returned: "\<exists>text w'. extractImage P file w = (Returned (Some text), w')"
proof -
  obtain r w1 where rf: "readFile P (path file) w = (r, w1)" by (cases "readFile P (path file) w")
  have nd: "r \<noteq> Diverged"
    using rf by (auto simp: readFile_def sys_def Let_def split: option.splits fs_node.splits)
  show ?thesis
    using rf nd
    by (cases r; cases "sharp_metadata P (case r of Returned b \<Rightarrow> b)")
      (auto simp: extractImage_def catch_io_def bind_io_def return_io_def throw_io_def)
qed

lemma extractMedia_Returned: "\<exists>text w'. extractMedia P file w = (Returned (Some text), w')"
  by (simp add: extractMedia_def Let_def return_io_def)

text \<open>
  Claim C5: the extractor applies the size ceiling before it reads anything. A document,
  code or data file above 10 MiB gives \<open>null\<close> and leaves the state, journal included,
  as it was; so does an image or media file above 50 MiB; an image or media file of at most
  50 MiB is not rejected: the extractor returns a text for it.
\<close>

theorem extract_size_ceiling:
  "(ftype file \<in> {Document, Code, Data} \<and> size_bytes file > 10 * 1024 * 1024 \<longrightarrow>
      ContentExtractor_extract P file w = (Returned None, w))
   \<and> (ftype file \<in> {Image, Media} \<and> size_bytes file > 50 * 1024 * 1024 \<longrightarrow>
      ContentExtractor_extract P file w = (Returned None, w))
   \<and> (ftype file \<in> {Image, Media} \<and> size_bytes file \<le> 50 * 1024 * 1024 \<longrightarrow>
      (\<exists>text w'. ContentExtractor_extract P file w = (Returned (Some text), w')))"
proof (intro conjI impI)
  assume "ftype file \<in> {Document, Code, Data} \<and> size_bytes file > 10 * 1024 * 1024"
  then show "ContentExtractor_extract P file w = (Returned None, w)"
    by (auto simp: ContentExtractor_extract_def maxSize_def MAX_FILE_SIZE_def catch_io_def return_io_def)
next
  assume "ftype file \<in> {Image, Media} \<and> size_bytes file > 50 * 1024 * 1024"
  then show "ContentExtractor_extract P file w = (Returned None, w)"
    by (auto simp: ContentExtractor_extract_def maxSize_def catch_io_def return_io_def)
next
  assume a: "ftype file \<in> {Image, Media} \<and> size_bytes file \<le> 50 * 1024 * 1024"
  then consider "ftype file = Image" | "ftype file = Media" by auto
  then show "\<exists>text w'. ContentExtractor_extract P file w = (Returned (Some text), w')"
  proof cases
    case 1
    with a extractImage_Returned[of P "file" w] show ?thesis
      by (auto simp: ContentExtractor_extract_def maxSize_def catch_io_def)
  next
    case 2
    with a extractMedia_Returned[of P "file" w] show ?thesis
      by (auto simp: ContentExtractor_extract_def maxSize_def catch_io_def)
  qed
qed

theorem extract_size_ceiling_witness:
  "ContentExtractor_extract example_platform (example_notes\<lparr>size_bytes := 10485761\<rparr>) example_world
     = (Returned None, example_world)
   \<and> ContentExtractor_extract example_platform
         (example_notes\<lparr>size_bytes := 52428801, ftype := Image\<rparr>) example_world
     = (Returned None, example_world)
   \<and> (\<exists>text w'. ContentExtractor_extract example_platform
         (example_notes\<lparr>size_bytes := 20971520, ftype := Media\<rparr>) example_world
     = (Returned (Some text), w'))"
  using extract_size_ceiling[of "example_notes\<lparr>size_bytes := 10485761\<rparr>" example_platform example_world]
    extract_size_ceiling[of "example_notes\<lparr>size_bytes := 52428801, ftype := Image\<rparr>"
      example_platform example_world]
    extract_size_ceiling[of "example_notes\<lparr>size_bytes := 20971520, ftype := Media\<rparr>"
      example_platform example_world]
  by (simp add: example_notes_def)

section \<open>The record that processing returns\<close>

lemma processFile_ordinary:
  "ftype file \<noteq> Archive \<Longrightarrow> processFile depth P cfg opts file = processFileAsNormal P cfg opts file"
  by (cases depth) simp_all

lemma processFileAsNormal_shape:
  assumes "processFileAsNormal P cfg opts file w = (Returned pf, w')"
  shows "original pf = file
    \<and> tags pf = selectTags cfg (suggestTags file None)
    \<and> fm_tags (frontmatter pf) = tags pf
    \<and> originalFile (frontmatter pf) = ''[[file://'' @ originalNewPath pf @ '']]''
    \<and> sourceLocation (frontmatter pf) = path file
    \<and> (\<exists>today. originalNewPath pf = getOriginalFilePath P cfg file (file_category pf) today)"
  using assms unfolding processFileAsNormal_def Let_def
  by (elim bind_io_Returned) (auto simp: suggestTags_def)

lemma slice0_length: "0 \<le> n \<Longrightarrow> int (length (slice0 n xs)) \<le> n"
  by (simp add: slice0_def)

lemma selectTags_length: "0 \<le> maxTags cfg \<Longrightarrow> int (length (selectTags cfg cands)) \<le> maxTags cfg"
  by (simp add: selectTags_def slice0_length)

lemma generateArchiveTags_length:
  "0 \<le> maxTags cfg \<Longrightarrow> int (length (generateArchiveTags cfg file children)) \<le> maxTags cfg"
  by (simp add: generateArchiveTags_def Let_def slice0_length)

lemma archive_summary_record_shape:
  assumes "archive_summary_record P cfg opts file children w = (Returned pf, w')"
  shows "original pf = file
    \<and> tags pf = generateArchiveTags cfg file children
    \<and> fm_tags (frontmatter pf) = tags pf
    \<and> originalFile (frontmatter pf) = ''[[file://'' @ originalNewPath pf @ '']]''
    \<and> sourceLocation (frontmatter pf) = path file"
proof (cases "generateArchiveSummary P cfg file children")
  case (Returned a)
  with assms show ?thesis
    unfolding archive_summary_record_def Let_def
    by simp (elim bind_io_Returned, auto)
qed (use assms in \<open>simp_all add: archive_summary_record_def\<close>)

lemma processArchive_shape:
  assumes "processArchiveRecursively self P cfg opts file w = (Returned pf, w')"
  shows "original pf = file
    \<and> (tags pf = selectTags cfg (suggestTags file None)
        \<or> (\<exists>children. tags pf = generateArchiveTags cfg file children))
    \<and> fm_tags (frontmatter pf) = tags pf
    \<and> originalFile (frontmatter pf) = ''[[file://'' @ originalNewPath pf @ '']]''
    \<and> sourceLocation (frontmatter pf) = path file"
proof -
  from assms obtain tmp w1 w2 where
    "expand_archive self P cfg opts file tmp w1 = (Returned pf, w2)"
    unfolding processArchiveRecursively_def by (elim bind_io_Returned finally_io_Returned)
  then obtain extracted w3 where
    rest: "(if extracted = [] then processFileAsNormal P cfg opts file
           else bind_io (process_members self P extracted [])
                  (archive_summary_record P cfg opts file)) w3 = (Returned pf, w2)"
    unfolding expand_archive_def by (elim bind_io_Returned)
  show ?thesis
  proof (cases "extracted = []")
    case True
    with rest have "processFileAsNormal P cfg opts file w3 = (Returned pf, w2)" by simp
    from processFileAsNormal_shape[OF this] show ?thesis by blast
  next
    case False
    with rest obtain children w4 where
      "archive_summary_record P cfg opts file children w4 = (Returned pf, w2)"
      by (auto elim: bind_io_Returned)
    from archive_summary_record_shape[OF this] show ?thesis by blast
  qed
qed

lemma processFile_shape:
  assumes "processFile depth P cfg opts file w = (Returned pf, w')"
  shows "original pf = file
    \<and> (tags pf = selectTags cfg (suggestTags file None)
        \<or> (\<exists>children. tags pf = generateArchiveTags cfg file children))
    \<and> fm_tags (frontmatter pf) = tags pf
    \<and> originalFile (frontmatter pf) = ''[[file://'' @ originalNewPath pf @ '']]''
    \<and> sourceLocation (frontmatter pf) = path file"
proof (cases "ftype file = Archive")
  case False
  with assms have "processFileAsNormal P cfg opts file w = (Returned pf, w')"
    by (simp add: processFile_ordinary)
  from processFileAsNormal_shape[OF this] show ?thesis by blast
next
  case True
  show ?thesis
  proof (cases depth)
    case 0
    with True assms show ?thesis by simp
  next
    case (Suc d)
    with True assms
    have "processArchiveRecursively (processFile d P cfg opts) P cfg opts file w = (Returned pf, w')"
      by simp
    from processArchive_shape[OF this] show ?thesis .
  qed
qed

section \<open>The record of the example text file\<close>

lemma example_notes_dry_run:
  "map_option (\<lambda>pf. (tags pf, originalFile (frontmatter pf), sourceLocation (frontmatter pf),
                       originalNewPath pf))
     (returned (fst (processFile 0 example_platform example_config dry_run example_notes example_world)))
   = Some ([''type/document'', ''format/txt'', ''date/2024/03'', ''topic/project'', ''topic/meeting''],
           ''[[file:///o/2024/Document/project-meeting-notes.txt]]'',
           ''/home/u/project-meeting-notes.txt'',
           ''/o/2024/Document/project-meeting-notes.txt'')"
  by code_simp

lemma example_notes_record:
  obtains pf w' where
    "processFile 0 example_platform example_config dry_run example_notes example_world = (Returned pf, w')"
    "tags pf = [''type/document'', ''format/txt'', ''date/2024/03'', ''topic/project'', ''topic/meeting'']"
    "originalFile (frontmatter pf) = ''[[file:///o/2024/Document/project-meeting-notes.txt]]''"
    "sourceLocation (frontmatter pf) = ''/home/u/project-meeting-notes.txt''"
    "originalNewPath pf = ''/o/2024/Document/project-meeting-notes.txt''"
proof -
  obtain r w' where run:
    "processFile 0 example_platform example_config dry_run example_notes example_world = (r, w')"
    by (cases "processFile 0 example_platform example_config dry_run example_notes example_world")
  with example_notes_dry_run obtain pf where "r = Returned pf"
    by (cases r) (simp_all add: returned_def)
  with run example_notes_dry_run that show ?thesis
    by (simp add: returned_def)
qed

lemma example_notes_ordinary: "ftype example_notes \<noteq> Archive"
  by (simp add: example_notes_def)

lemma example_maxTags: "0 \<le> maxTags example_config" "nat (maxTags example_config) = 5"
  by (simp_all add: example_config_def)

section \<open>Sorting and cutting the candidates\<close>

lemma insert_by_insort:
  "insert_by (\<lambda>a b. confidence b - confidence a) x ys = insort_key (\<lambda>t. - confidence t) x ys"
  by (induction ys) auto

lemma js_sort_confidence:
  "js_sort (\<lambda>a b. confidence b - confidence a) xs = sort_key (\<lambda>t. - confidence t) xs"
  by (induction xs) (simp_all add: js_sort_def insert_by_insort)

lemma sorted_desc:
  "sorted_wrt (\<lambda>a b. confidence b \<le> confidence a) (sort_key (\<lambda>t. - confidence t) xs)"
proof -
  have "sorted (map (\<lambda>t. - confidence t) (sort_key (\<lambda>t. - confidence t) xs))"
    by (rule sorted_sort_key)
  then show ?thesis by (simp add: sorted_wrt_map sorted_wrt_iff_nth_less sorted_iff_nth_mono_less)
qed

lemma stable_desc:
  "filter (\<lambda>t. confidence t = k) (sort_key (\<lambda>t. - confidence t) xs) = filter (\<lambda>t. confidence t = k) xs"
  using sort_key_stable[of "\<lambda>t. - confidence t" "- k" xs] by simp

lemma sorted_wrt_take_drop:
  "sorted_wrt R xs \<Longrightarrow> a \<in> set (take n xs) \<Longrightarrow> b \<in> set (drop n xs) \<Longrightarrow> R a b"
  by (metis append_take_drop_id sorted_wrt_append)

text \<open>
  Claim C4: the tags that the processor attaches are the tags of the first \<open>maxTags\<close>
  candidates after a stable sort by descending confidence. For every list of candidates,
  whatever their order, \<open>selectTags\<close> gives the tags of the first \<open>maxTags\<close> elements
  of a list \<open>ranked\<close> that holds the same candidates in descending confidence, those of
  equal confidence in the order in which they were emitted; with more than \<open>maxTags\<close>
  candidates it gives exactly \<open>maxTags\<close> tags, and no candidate left out has a higher
  confidence than one kept. The record of a file that is not an archive carries
  \<open>selectTags\<close> of the candidates that \<open>suggestTags\<close> returned for the file. \<open>maxTags\<close>
  is taken to be a count, that is, not negative.
\<close>

theorem processFile_tags_ranked:
  assumes "0 \<le> maxTags cfg"
  shows "\<exists>ranked.
           mset ranked = mset candidates
         \<and> sorted_wrt (\<lambda>a b. confidence b \<le> confidence a) ranked
         \<and> (\<forall>k. filter (\<lambda>t. confidence t = k) ranked
                = filter (\<lambda>t. confidence t = k) candidates)
         \<and> selectTags cfg candidates = map tag (take (nat (maxTags cfg)) ranked)
         \<and> (int (length candidates) > maxTags cfg \<longrightarrow>
              length (selectTags cfg candidates) = nat (maxTags cfg))
         \<and> (\<forall>a \<in> set (take (nat (maxTags cfg)) ranked).
              \<forall>b \<in> set (drop (nat (maxTags cfg)) ranked). confidence b \<le> confidence a)
         \<and> (ftype file \<noteq> Archive \<and> processFile depth P cfg opts file w = (Returned pf, w') \<longrightarrow>
              tags pf = selectTags cfg (suggestTags file None))"
proof -
  define ranked where "ranked = sort_key (\<lambda>t. - confidence t) candidates"
  from assms have tags: "selectTags cfg candidates = map tag (take (nat (maxTags cfg)) ranked)"
    by (simp add: selectTags_def slice0_def js_sort_confidence ranked_def)
  have len: "length ranked = length candidates"
    by (simp add: ranked_def)
  have sorted: "sorted_wrt (\<lambda>a b. confidence b \<le> confidence a) ranked"
    unfolding ranked_def by (rule sorted_desc)
  show ?thesis
  proof (intro exI[of _ ranked] conjI allI impI ballI)
    show "mset ranked = mset candidates" by (simp add: ranked_def)
    show "sorted_wrt (\<lambda>a b. confidence b \<le> confidence a) ranked" by (rule sorted)
    show "filter (\<lambda>t. confidence t = k) ranked = filter (\<lambda>t. confidence t = k) candidates" for k
      unfolding ranked_def by (rule stable_desc)
    show "selectTags cfg candidates = map tag (take (nat (maxTags cfg)) ranked)" by (rule tags)
    show "length (selectTags cfg candidates) = nat (maxTags cfg)"
      if "int (length candidates) > maxTags cfg"
      using that tags len assms by simp
    show "confidence b \<le> confidence a"
      if "a \<in> set (take (nat (maxTags cfg)) ranked)" "b \<in> set (drop (nat (maxTags cfg)) ranked)" for a b
      using sorted_wrt_take_drop[OF sorted that] .
    show "tags pf = selectTags cfg (suggestTags file None)"
      if "ftype file \<noteq> Archive \<and> processFile depth P cfg opts file w = (Returned pf, w')"
    proof -
      from that have "ftype file \<noteq> Archive"
        and "processFile depth P cfg opts file w = (Returned pf, w')" by blast+
      then have "processFileAsNormal P cfg opts file w = (Returned pf, w')"
        by (simp add: processFile_ordinary)
      then show ?thesis using processFileAsNormal_shape by blast
    qed
  qed
qed

theorem processFile_tags_ranked_witness:
  "selectTags (example_config\<lparr>maxTags := 3\<rparr>)
     [\<lparr>tag = ''topic/alpha'', confidence = 1 / 2, source = ''filename''\<rparr>,
      \<lparr>tag = ''format/txt'', confidence = 9 / 10, source = ''extension''\<rparr>,
      \<lparr>tag = ''topic/beta'', confidence = 1 / 2, source = ''filename''\<rparr>,
      \<lparr>tag = ''type/document'', confidence = 1, source = ''type''\<rparr>]
     = [''type/document'', ''format/txt'', ''topic/alpha'']
   \<and> (\<exists>pf w'. processFile 0 example_platform example_config dry_run example_notes example_world
             = (Returned pf, w')
        \<and> length (suggestTags example_notes None) = 6
        \<and> tags pf = selectTags example_config (suggestTags example_notes None)
        \<and> length (tags pf) = 5
        \<and> tags pf = [''type/document'', ''format/txt'', ''date/2024/03'', ''topic/project'',
                      ''topic/meeting''])"
proof -
  obtain pf w' where
    run: "processFile 0 example_platform example_config dry_run example_notes example_world
            = (Returned pf, w')"
    and tags: "tags pf = [''type/document'', ''format/txt'', ''date/2024/03'', ''topic/project'',
                          ''topic/meeting'']"
    by (rule example_notes_record)
  have six: "length (suggestTags example_notes None) = 6"
    by code_simp
  have cut: "selectTags (example_config\<lparr>maxTags := 3\<rparr>)
     [\<lparr>tag = ''topic/alpha'', confidence = 1 / 2, source = ''filename''\<rparr>,
      \<lparr>tag = ''format/txt'', confidence = 9 / 10, source = ''extension''\<rparr>,
      \<lparr>tag = ''topic/beta'', confidence = 1 / 2, source = ''filename''\<rparr>,
      \<lparr>tag = ''type/document'', confidence = 1, source = ''type''\<rparr>]
     = [''type/document'', ''format/txt'', ''topic/alpha'']"
    by code_simp
  from processFile_tags_ranked[OF example_maxTags(1), of "suggestTags example_notes None"
         example_notes 0 example_platform dry_run example_world pf w']
       example_notes_ordinary run six example_maxTags
  have sel: "tags pf = selectTags example_config (suggestTags example_notes None)"
    and five: "length (selectTags example_config (suggestTags example_notes None)) = 5"
    by auto
  from five sel have len: "length (tags pf) = 5" by simp
  show ?thesis
    by (intro conjI exI[of _ pf] exI[of _ w']) (fact cut run six sel len tags)+
qed

section \<open>The link to the original and the number of tags\<close>

text \<open>
  Claim C8: in the record of a processed file that is not an archive, the front matter's
  \<open>originalFile\<close> is the wiki link \<open>[[file://...]]\<close> to \<open>originalNewPath\<close>, the place
  under the originals directory to which the file is moved or copied, computed by
  \<open>getOriginalFilePath\<close> from the suggested category; the path the file was read from is
  kept apart, in \<open>sourceLocation\<close>.
\<close>

theorem processFile_frontmatter_links_destination:
  assumes "ftype file \<noteq> Archive"
    and "processFile depth P cfg opts file w = (Returned pf, w')"
  shows "originalFile (frontmatter pf) = ''[[file://'' @ originalNewPath pf @ '']]''
       \<and> (\<exists>today. originalNewPath pf = getOriginalFilePath P cfg file (file_category pf) today)
       \<and> sourceLocation (frontmatter pf) = path file"
proof -
  from assms have "processFileAsNormal P cfg opts file w = (Returned pf, w')"
    by (simp add: processFile_ordinary)
  from processFileAsNormal_shape[OF this] show ?thesis by blast
qed

theorem processFile_frontmatter_links_destination_witness:
  "\<exists>pf w'. processFile 0 example_platform example_config dry_run example_notes example_world
             = (Returned pf, w')
     \<and> originalNewPath pf = ''/o/2024/Document/project-meeting-notes.txt''
     \<and> originalFile (frontmatter pf) = ''[[file://'' @ originalNewPath pf @ '']]''
     \<and> sourceLocation (frontmatter pf) = path example_notes
     \<and> path example_notes = ''/home/u/project-meeting-notes.txt''"
proof -
  obtain pf w' where
    run: "processFile 0 example_platform example_config dry_run example_notes example_world
            = (Returned pf, w')"
    and new: "originalNewPath pf = ''/o/2024/Document/project-meeting-notes.txt''"
    by (rule example_notes_record)
  from processFile_frontmatter_links_destination[OF example_notes_ordinary run] run new
  show ?thesis by (auto simp: example_notes_def)
qed

text \<open>
  Claim C10: whenever \<open>maxTags\<close> is a count (not negative), the record that \<open>processFile\<close>
  returns, for an ordinary file or for an archive at any depth of nesting, has at most
  \<open>maxTags\<close> tags, and so has every tag list that \<open>generateArchiveTags\<close> builds for the
  summary of an archive, however many tags its members contribute.
\<close>

theorem processFile_tags_bounded:
  assumes "0 \<le> maxTags cfg"
    and "processFile depth P cfg opts file w = (Returned pf, w')"
  shows "int (length (tags pf)) \<le> maxTags cfg
       \<and> int (length (generateArchiveTags cfg archiveFile children)) \<le> maxTags cfg"
  using processFile_shape[OF assms(2)] assms(1)
  by (auto simp: selectTags_length generateArchiveTags_length)

theorem processFile_tags_bounded_witness:
  "\<exists>pf w'. processFile 0 example_platform example_config dry_run example_notes example_world
             = (Returned pf, w')
     \<and> length (tags pf) = 5
     \<and> maxTags example_config = 5
     \<and> generateArchiveTags (example_config\<lparr>maxTags := 3\<rparr>) example_zip []
         = [''type/archive'', ''format/zip'', ''source/expanded'']"
proof -
  obtain pf w' where
    run: "processFile 0 example_platform example_config dry_run example_notes example_world
            = (Returned pf, w')"
    and tags: "tags pf = [''type/document'', ''format/txt'', ''date/2024/03'', ''topic/project'',
                          ''topic/meeting'']"
    by (rule example_notes_record)
  have cut: "generateArchiveTags (example_config\<lparr>maxTags := 3\<rparr>) example_zip []
         = [''type/archive'', ''format/zip'', ''source/expanded'']"
    by code_simp
  from processFile_tags_bounded[OF example_maxTags(1) run, of example_zip "[]"] tags cut run
  show ?thesis by (auto simp: example_config_def)
qed

section \<open>A dry run\<close>













































section \<open>More depth changes nothing that has settled\<close>













section \<open>A depth that is enough\<close>













section \<open>One outcome for every file of a batch\<close>



















section \<open>Classification of archive members and of scanned files\<close>

lemma types_agree_elsewhere:
  "toLowerCase ext = ext \<Longrightarrow>
   ext \<notin> set [''md'', ''mkv'', ''swift'', ''kt'', ''sql'', ''bz2'', ''flac''] \<Longrightarrow>
   determineFileType ext = getFileType ext"
  unfolding determineFileType_def getFileType_def buildExtensionMap_def set_all_def
  by (simp add: Let_def)

text \<open>
  Claim C6 says that \<open>determineFileType\<close> gives an archive member the type that the
  scanner's table gives its extension. The two tables differ: \<open>md\<close> is a document for
  \<open>determineFileType\<close> and unknown to the scanner, \<open>flac\<close> is media for the scanner and
  unknown to \<open>determineFileType\<close> (and likewise \<open>mkv\<close>, \<open>swift\<close>, \<open>kt\<close>, \<open>sql\<close>, \<open>bz2\<close>;
  on every other lower-case extension they agree, by \<open>types_agree_elsewhere\<close>).
\<close>

theorem determineFileType_differs_from_scanner:
  "determineFileType ''md'' = Document \<and> getFileType ''md'' = Unknown
   \<and> determineFileType ''flac'' = Unknown \<and> getFileType ''flac'' = Media"
  by (simp add: determineFileType_def getFileType_def buildExtensionMap_def set_all_def
      toLowerCase_def lower_char_def)

section \<open>The content section of a document\<close>

text \<open>
  Claim C9, as stated, has content of 5000 characters or fewer appear unmodified under the
  heading. The empty string is such a content, and for it the generator gives the notice
  it gives for \<open>null\<close>.
\<close>

theorem generateDocumentContent_empty_counterexample:
  "length ([] :: string) \<le> 5000
   \<and> generateDocumentContent (Some []) \<noteq> ''## Content'' @ NL @ NL @ []
   \<and> generateDocumentContent (Some []) = generateDocumentContent None"
  by (simp add: generateDocumentContent_def unable_notice_def)

text \<open>
  Claim C9, amended: content longer than 5000 characters is rendered as its first 5000
  characters followed by the truncation notice; non-empty content of 5000 characters or
  fewer is rendered unmodified, with no notice; \<open>null\<close> and the empty string give the
  unable-to-extract notice.
\<close>

theorem generateDocumentContent_cases:
  "generateDocumentContent None = unable_notice
   \<and> generateDocumentContent (Some []) = unable_notice
   \<and> (c \<noteq> [] \<and> length c \<le> 5000 \<longrightarrow>
        generateDocumentContent (Some c) = ''## Content'' @ NL @ NL @ c)
   \<and> (length c > 5000 \<longrightarrow>
        generateDocumentContent (Some c)
          = ''## Content'' @ NL @ NL @ take 5000 c @ NL @ truncation_notice)"
  by (auto simp: generateDocumentContent_def)

theorem generateDocumentContent_cases_witness:
  "generateDocumentContent (Some ''abc'') = ''## Content'' @ NL @ NL @ ''abc''
   \<and> generateDocumentContent (Some (replicate 5001 CHR ''x''))
        = ''## Content'' @ NL @ NL @ replicate 5000 CHR ''x'' @ NL @ NL @ NL
          @ ''*... (content truncated)*''"
  using generateDocumentContent_cases[of "''abc''"]
    generateDocumentContent_cases[of "replicate 5001 CHR ''x''"]
  by (simp add: truncation_notice_def)

section \<open>The tag candidates from the file name\<close>

lemma split_char_replace:
  "split_char CHR '' '' (replace_separators s) = split_where name_separator s"
  by (induction s) (auto simp: replace_separators_def name_separator_def split: list.splits)

lemma nameWords_split:
  "nameWords n = filter (\<lambda>word. length word > 3) (split_where name_separator (toLowerCase n))"
  by (simp add: nameWords_def split_char_replace)

lemma suggestTags_content: "suggestTags file c = suggestTags file None"
  by (simp add: suggestTags_def)

text \<open>
  Claim C7, as stated, takes the words from the file name without its extension. The code
  takes them from the whole name: \<open>report.docx\<close> gives the words \<open>report\<close> and \<open>docx\<close>,
  where the name without its extension gives \<open>report\<close> alone.
\<close>

theorem nameWords_extension_counterexample:
  "nameWords ''report.docx'' = [''report'', ''docx'']
   \<and> stem_words_claimed ''report.docx'' = [''report'']"
  by (simp add: nameWords_def replace_separators_def toLowerCase_def lower_char_def
      stem_words_claimed_def path_parse_name_def path_basename_def base_ext_def whitespace_def)

text \<open>
  Claim C7, amended: the candidates with source \<open>filename\<close> come from the whole file
  name, extension included. The name is lower-cased and split at every \<open>.\<close>, \<open>_\<close>, \<open>-\<close>
  and space; each word longer than three characters gives, in order, one candidate
  \<open>topic/<word>\<close> with confidence 0.7 and source \<open>filename\<close>, and the shorter words give
  none.
\<close>

theorem suggestTags_filename_candidates:
  "filter (\<lambda>t. source t = ''filename'') (suggestTags file c)
     = map (\<lambda>word. \<lparr>tag = ''topic/'' @ word, confidence = 7 / 10, source = ''filename''\<rparr>)
         (filter (\<lambda>word. length word > 3)
            (split_where name_separator (toLowerCase (name file))))"
  by (simp add: suggestTags_def nameWords_split topic_suggestion_def filter_map comp_def)

end
